theory Spec2Isabelle
  imports Complex_Main
begin

section \<open>The content-stream interpreter of pdfminer (pdfinterp.py)\<close>

text \<open>
  A shallow embedding of \<^verbatim>\<open>src/pdfminer/pdfinterp.py\<close>: the operand values, the
  text and graphic states, the page interpreter with its operator handlers and its
  dispatcher (\<^verbatim>\<open>execute\<close>), the recursion into Form XObjects, and the inline-image
  part of the content parser.

  Conventions of the embedding.
  \<^item> Python's \<^verbatim>\<open>int\<close> and \<^verbatim>\<open>float\<close> operands are both embedded in \<open>real\<close>
    (constructor \<open>ONum\<close>): integers exactly, floats without rounding.
  \<^item> An exception is a value \<open>Inl e\<close> of the result type \<open>error + 'a\<close>.
  \<^item> The device is a sink: the model records the sequence of callbacks it receives
    (field \<open>device\<close>), each with the values of its arguments at the time of the call.
  \<^item> \<^verbatim>\<open>settings.STRICT\<close>, the tables and the helpers of other modules are the
    fields of the record \<open>externals\<close> or are modelled below, each with a comment.
  \<^item> Objects are resolved: there is no \<^verbatim>\<open>PDFObjRef\<close>, and \<^verbatim>\<open>resolve1\<close> is the
    identity.
\<close>

subsection \<open>Values\<close>

datatype obj =
    ONum real
  | OBool bool
  | ONull
  | OLit string
  | OStr string
  | OList "obj list"
  | OTuple "obj list"
  | ODict "(string \<times> obj) list"
  | OStream "(string \<times> obj) list" string

text \<open>
  What the content parser holds on its stack: an object, a keyword, or the stream it
  builds for an inline image (a dictionary of such things, and the image data).
\<close>

datatype psobj = Obj obj | Kwd string | Stream "(string \<times> psobj) list" string

datatype error =
    PDFInterpreterError
  | PDFValueError
  | PDFTypeError
  | PDFFontError
  | PSTypeError
  | PSEOF
  | TypeError
  | ValueError
  | KeyError
  | IndexError
  | AttributeError
  | AssertionError
  | RecursionError

type_synonym Matrix = "real \<times> real \<times> real \<times> real \<times> real \<times> real"

datatype PathSegment =
    Move obj obj
  | Line obj obj
  | Curve3 obj obj obj obj obj obj
  | CurveV obj obj obj obj
  | CurveY obj obj obj obj
  | Close

datatype PDFColorSpace = PDFColorSpace (name: string) (ncomponents: obj)

datatype PDFFont = PDFFont obj

record PDFTextState =
  font :: "PDFFont option"
  fontsize :: obj
  charspace :: obj
  wordspace :: obj
  scaling :: obj
  leading :: real
  render :: obj
  rise :: obj
  matrix :: "obj \<times> obj \<times> obj \<times> obj \<times> obj \<times> obj"
  linematrix :: "real \<times> real"

record PDFGraphicState =
  linewidth :: obj
  linecap :: obj
  linejoin :: obj
  miterlimit :: obj
  dash :: "(obj \<times> obj) option"
  intent :: obj
  flatness :: obj
  scolor :: obj
  ncolor :: obj

text \<open>The callbacks of \<^verbatim>\<open>PDFDevice\<close>, one constructor for each callback.\<close>

datatype event =
    set_ctm Matrix
  | begin_figure string obj obj
  | end_figure string
  | paint_path PDFGraphicState bool bool bool "PathSegment list"
  | render_string PDFTextState obj PDFColorSpace PDFGraphicState obj
  | render_image string obj
  | do_tag obj "obj option"
  | begin_tag obj "obj option"
  | end_tag

text \<open>
  What \<^verbatim>\<open>parser.nextobject()\<close> returns to \<^verbatim>\<open>execute\<close>: an operand, or a
  keyword with the instruction index the tokenizer attached to it (if any).
\<close>

datatype token = Operand obj | Keyword string "nat option"

record PDFPageInterpreter =
  device :: "event list"
  resources :: obj
  fontmap :: "(string \<times> PDFFont) list"
  xobjmap :: "(string \<times> obj) list"
  csmap :: "(string \<times> PDFColorSpace) list"
  gstack :: "(Matrix \<times> PDFTextState \<times> PDFGraphicState) list"
  ctm :: Matrix
  textstate :: PDFTextState
  graphicstate :: PDFGraphicState
  curpath :: "PathSegment list"
  argstack :: "obj list"
  scs :: "PDFColorSpace option"
  ncs :: "PDFColorSpace option"

text \<open>
  The parts of the repository that \<^verbatim>\<open>pdfinterp.py\<close> imports and that are not among
  the sources:
  \<^item> \<open>STRICT\<close>: \<^verbatim>\<open>settings.STRICT\<close>;
  \<^item> \<open>PREDEFINED_COLORSPACE\<close>: the table of \<^verbatim>\<open>pdfcolor\<close>, in its order;
  \<^item> \<open>nextobjects\<close>: the objects that \<^verbatim>\<open>PDFContentParser(streams).nextobject()\<close>
    yields until \<^verbatim>\<open>PSEOF\<close>;
  \<^item> \<open>get_font\<close>: \<^verbatim>\<open>rsrcmgr.get_font(None, spec)\<close> (the font classes of
    \<^verbatim>\<open>pdffont\<close>);
  \<^item> \<open>py_str\<close>: Python's \<^verbatim>\<open>str(x)\<close>, \<open>py_id\<close>: \<^verbatim>\<open>str(id(x))\<close>;
  \<^item> \<open>BUFSIZ\<close>: the buffer size of \<^verbatim>\<open>PSBaseParser\<close>.
\<close>

record externals =
  STRICT :: bool
  PREDEFINED_COLORSPACE :: "(string \<times> PDFColorSpace) list"
  nextobjects :: "obj list \<Rightarrow> token list"
  get_font :: "obj \<Rightarrow> error + PDFFont"
  py_str :: "psobj \<Rightarrow> string"
  py_id :: "obj \<Rightarrow> string"
  BUFSIZ :: nat

subsection \<open>Python helpers\<close>

definition ebind :: "error + 'a \<Rightarrow> ('a \<Rightarrow> error + 'b) \<Rightarrow> error + 'b" where
  "ebind m f = (case m of Inl e \<Rightarrow> Inl e | Inr x \<Rightarrow> f x)"

text \<open>Truth value of an object in a condition (\<^verbatim>\<open>if x:\<close>, \<^verbatim>\<open>if not x:\<close>).\<close>

fun truthy :: "obj \<Rightarrow> bool" where
  "truthy (ONum r) = (r \<noteq> 0)"
| "truthy (OBool b) = b"
| "truthy ONull = False"
| "truthy (OLit n) = True"
| "truthy (OStr s) = (s \<noteq> [])"
| "truthy (OList xs) = (xs \<noteq> [])"
| "truthy (OTuple xs) = (xs \<noteq> [])"
| "truthy (ODict d) = (d \<noteq> [])"
| "truthy (OStream d s) = True"

text \<open>
  An operand of an arithmetic operation: numbers, and \<^verbatim>\<open>bool\<close> as 0 or 1; any
  other operand of \<^verbatim>\<open>*\<close>, of unary \<^verbatim>\<open>-\<close> or of \<^verbatim>\<open>+\<close> with a number raises
  \<^verbatim>\<open>TypeError\<close>. (The repetition of a sequence by an \<^verbatim>\<open>int\<close> is not modelled:
  numbers carry no int/float tag.)
\<close>

fun as_number :: "obj \<Rightarrow> error + real" where
  "as_number (ONum r) = Inr r"
| "as_number (OBool b) = Inr (if b then 1 else 0)"
| "as_number _ = Inl TypeError"

text \<open>\<^verbatim>\<open>x + y\<close>: numbers add, sequences of the same kind concatenate.\<close>

fun py_add :: "obj \<Rightarrow> obj \<Rightarrow> error + obj" where
  "py_add (OStr a) (OStr b) = Inr (OStr (a @ b))"
| "py_add (OList a) (OList b) = Inr (OList (a @ b))"
| "py_add (OTuple a) (OTuple b) = Inr (OTuple (a @ b))"
| "py_add x y =
     ebind (as_number x) (\<lambda>a. ebind (as_number y) (\<lambda>b. Inr (ONum (a + b))))"

text \<open>A number used as a slice bound must be an integer.\<close>

fun as_index :: "obj \<Rightarrow> error + int" where
  "as_index (ONum r) = (if r \<in> \<int> then Inr \<lfloor>r\<rfloor> else Inl TypeError)"
| "as_index (OBool b) = Inr (if b then 1 else 0)"
| "as_index _ = Inl TypeError"

text \<open>\<^verbatim>\<open>d[k]\<close>, \<^verbatim>\<open>d.get(k)\<close>, \<^verbatim>\<open>d[k] = v\<close> on a dictionary kept in insertion order.\<close>

definition dict_getitem :: "('k \<times> 'v) list \<Rightarrow> 'k \<Rightarrow> error + 'v" where
  "dict_getitem d k = (case map_of d k of None \<Rightarrow> Inl KeyError | Some v \<Rightarrow> Inr v)"

fun dict_setitem :: "('k \<times> 'v) list \<Rightarrow> 'k \<Rightarrow> 'v \<Rightarrow> ('k \<times> 'v) list" where
  "dict_setitem [] k v = [(k, v)]"
| "dict_setitem ((k', v') # d) k v =
     (if k' = k then (k, v) # d else (k', v') # dict_setitem d k v)"

text \<open>
  Modelled from the spec: \<^verbatim>\<open>dict_value\<close>, \<^verbatim>\<open>list_value\<close>, \<^verbatim>\<open>stream_value\<close>
  (module \<^verbatim>\<open>pdftypes\<close>) and \<^verbatim>\<open>literal_name\<close> (module \<^verbatim>\<open>psparser\<close>) are not
  among the sources. Following the error policy of the spec (section 7), an object of
  the wrong kind raises in strict mode and is replaced by a safe default otherwise: the
  empty dictionary, the empty list, the empty stream, the object's string form.
\<close>

definition dict_value :: "externals \<Rightarrow> obj \<Rightarrow> error + (string \<times> obj) list" where
  "dict_value X x =
     (case x of ODict d \<Rightarrow> Inr d
      | _ \<Rightarrow> if STRICT X then Inl PDFTypeError else Inr [])"

definition list_value :: "externals \<Rightarrow> obj \<Rightarrow> error + obj" where
  "list_value X x =
     (case x of OList xs \<Rightarrow> Inr x | OTuple xs \<Rightarrow> Inr x
      | _ \<Rightarrow> if STRICT X then Inl PDFTypeError else Inr (OList []))"

text \<open>The elements of a list or tuple object.\<close>

fun elems :: "obj \<Rightarrow> obj list" where
  "elems (OList xs) = xs"
| "elems (OTuple xs) = xs"
| "elems _ = []"

definition stream_value :: "externals \<Rightarrow> obj \<Rightarrow> error + (string \<times> obj) list \<times> string" where
  "stream_value X x =
     (case x of OStream d s \<Rightarrow> Inr (d, s)
      | _ \<Rightarrow> if STRICT X then Inl PDFTypeError else Inr ([], []))"

definition literal_name :: "externals \<Rightarrow> obj \<Rightarrow> error + string" where
  "literal_name X x =
     (case x of OLit n \<Rightarrow> Inr n
      | _ \<Rightarrow> if STRICT X then Inl PSTypeError else Inr (py_str X (Obj x)))"

text \<open>
  Modelled from the spec: \<^verbatim>\<open>safe_float\<close> (module \<^verbatim>\<open>casting\<close>) is not among the
  sources. It gives the number, and \<^verbatim>\<open>None\<close> for an invalid numeric operand
  (section 4.7).
\<close>

fun safe_float :: "obj \<Rightarrow> real option" where
  "safe_float (ONum r) = Some r"
| "safe_float _ = None"

text \<open>
  Modelled from the spec: \<^verbatim>\<open>MATRIX_IDENTITY\<close> and \<^verbatim>\<open>mult_matrix\<close> (module
  \<^verbatim>\<open>utils\<close>) are not among the sources. The identity is \<open>(1,0,0,1,0,0)\<close>, and
  \<open>mult_matrix P Q\<close> is the matrix that first applies \<open>P\<close>, then \<open>Q\<close> (section 3),
  where \<open>(a,b,c,d,e,f)\<close> maps \<open>(x,y)\<close> to \<open>(a*x + c*y + e, b*x + d*y + f)\<close>.
\<close>

definition MATRIX_IDENTITY :: Matrix where
  "MATRIX_IDENTITY = (1, 0, 0, 1, 0, 0)"

fun mult_matrix :: "Matrix \<Rightarrow> Matrix \<Rightarrow> Matrix" where
  "mult_matrix (a1, b1, c1, d1, e1, f1) (a0, b0, c0, d0, e0, f0) =
     (a0 * a1 + c0 * b1, b0 * a1 + d0 * b1,
      a0 * c1 + c0 * d1, b0 * c1 + d0 * d1,
      a0 * e1 + c0 * f1 + e0, b0 * e1 + d0 * f1 + f0)"

definition apply_matrix :: "Matrix \<Rightarrow> real \<times> real \<Rightarrow> real \<times> real" where
  "apply_matrix m p =
     (case m of (a, b, c, d, e, f) \<Rightarrow>
        (case p of (x, y) \<Rightarrow> (a * x + c * y + e, b * x + d * y + f)))"

text \<open>A matrix as the object the parser or the interpreter holds, and back.\<close>

definition matrix_obj :: "Matrix \<Rightarrow> obj" where
  "matrix_obj m =
     (case m of (a, b, c, d, e, f) \<Rightarrow>
        OTuple [ONum a, ONum b, ONum c, ONum d, ONum e, ONum f])"

text \<open>
  The unpacking \<^verbatim>\<open>(a1, b1, c1, d1, e1, f1) = m1\<close> of \<^verbatim>\<open>mult_matrix\<close> raises
  \<^verbatim>\<open>ValueError\<close> unless there are six entries; its arithmetic needs numbers.
\<close>

definition unpack_matrix :: "obj list \<Rightarrow> error + Matrix" where
  "unpack_matrix xs =
     (case xs of
        [a, b, c, d, e, f] \<Rightarrow>
          ebind (as_number a) (\<lambda>a. ebind (as_number b) (\<lambda>b.
          ebind (as_number c) (\<lambda>c. ebind (as_number d) (\<lambda>d.
          ebind (as_number e) (\<lambda>e. ebind (as_number f) (\<lambda>f.
            Inr (a, b, c, d, e, f)))))))
      | _ \<Rightarrow> Inl ValueError)"

subsection \<open>Text state and graphic state\<close>

text \<open>\<^verbatim>\<open>PDFTextState.__init__\<close> (with \<^verbatim>\<open>reset\<close>) and \<^verbatim>\<open>PDFGraphicState.__init__\<close>.\<close>

definition reset :: "PDFTextState \<Rightarrow> PDFTextState" where
  "reset t = t\<lparr>matrix := (ONum 1, ONum 0, ONum 0, ONum 1, ONum 0, ONum 0),
               linematrix := (0, 0)\<rparr>"

definition PDFTextState_init :: PDFTextState where
  "PDFTextState_init =
     reset \<lparr>font = None, fontsize = ONum 0, charspace = ONum 0, wordspace = ONum 0,
            scaling = ONum 100, leading = 0, render = ONum 0, rise = ONum 0,
            matrix = (ONull, ONull, ONull, ONull, ONull, ONull), linematrix = (0, 0)\<rparr>"

definition PDFTextState_copy :: "PDFTextState \<Rightarrow> PDFTextState" where
  "PDFTextState_copy t =
     PDFTextState_init\<lparr>font := font t, fontsize := fontsize t, charspace := charspace t,
       wordspace := wordspace t, scaling := scaling t, leading := leading t,
       render := render t, rise := rise t, matrix := matrix t,
       linematrix := linematrix t\<rparr>"

definition PDFGraphicState_init :: PDFGraphicState where
  "PDFGraphicState_init =
     \<lparr>linewidth = ONum 0, linecap = ONull, linejoin = ONull, miterlimit = ONull,
      dash = None, intent = ONull, flatness = ONull, scolor = ONull, ncolor = ONull\<rparr>"

definition PDFGraphicState_copy :: "PDFGraphicState \<Rightarrow> PDFGraphicState" where
  "PDFGraphicState_copy g =
     PDFGraphicState_init\<lparr>linewidth := linewidth g, linecap := linecap g,
       linejoin := linejoin g, miterlimit := miterlimit g, dash := dash g,
       intent := intent g, flatness := flatness g, scolor := scolor g,
       ncolor := ncolor g\<rparr>"

subsection \<open>The page interpreter: state\<close>

type_synonym result = "error + PDFPageInterpreter"

definition device_call :: "event \<Rightarrow> PDFPageInterpreter \<Rightarrow> PDFPageInterpreter" where
  "device_call ev s = s\<lparr>device := device s @ [ev]\<rparr>"

text \<open>
  \<^verbatim>\<open>dup\<close> builds an interpreter on the same resource manager and device. None of its
  other attributes exists before \<^verbatim>\<open>init_resources\<close> and \<^verbatim>\<open>init_state\<close> assign
  them; the record carries the old values until then, and nothing reads them.
\<close>

definition dup :: "PDFPageInterpreter \<Rightarrow> PDFPageInterpreter" where
  "dup s = s"

definition init_state :: "Matrix \<Rightarrow> PDFPageInterpreter \<Rightarrow> PDFPageInterpreter" where
  "init_state ctm_arg s =
     (let s1 = device_call (set_ctm ctm_arg) (s\<lparr>gstack := [], ctm := ctm_arg\<rparr>);
          s2 = s1\<lparr>textstate := PDFTextState_init, graphicstate := PDFGraphicState_init,
                  curpath := [], argstack := [], scs := None, ncs := None\<rparr>
      in (case csmap s2 of
            [] \<Rightarrow> s2
          | (k, v) # rest \<Rightarrow> s2\<lparr>scs := Some v, ncs := Some v\<rparr>))"

definition push :: "obj \<Rightarrow> PDFPageInterpreter \<Rightarrow> PDFPageInterpreter" where
  "push x s = s\<lparr>argstack := argstack s @ [x]\<rparr>"

text \<open>
  \<^verbatim>\<open>pop(n)\<close>: the slices \<^verbatim>\<open>argstack[-n:]\<close> and \<^verbatim>\<open>argstack[:-n]\<close>. With fewer than
  \<open>n\<close> operands the first is the whole stack and the second is empty; a negative \<open>n\<close>
  splits the stack from the front.
\<close>

definition pop :: "int \<Rightarrow> PDFPageInterpreter \<Rightarrow> obj list \<times> PDFPageInterpreter" where
  "pop n s =
     (if n = 0 then ([], s)
      else if 0 < n then
        (drop (length (argstack s) - nat n) (argstack s),
         s\<lparr>argstack := take (length (argstack s) - nat n) (argstack s)\<rparr>)
      else
        (drop (nat (- n)) (argstack s), s\<lparr>argstack := take (nat (- n)) (argstack s)\<rparr>))"

definition get_current_state ::
  "PDFPageInterpreter \<Rightarrow> Matrix \<times> PDFTextState \<times> PDFGraphicState" where
  "get_current_state s =
     (ctm s, PDFTextState_copy (textstate s), PDFGraphicState_copy (graphicstate s))"

definition set_current_state ::
  "Matrix \<times> PDFTextState \<times> PDFGraphicState \<Rightarrow> PDFPageInterpreter \<Rightarrow> PDFPageInterpreter" where
  "set_current_state state s =
     (case state of (m, t, g) \<Rightarrow>
        device_call (set_ctm m) (s\<lparr>ctm := m, textstate := t, graphicstate := g\<rparr>))"

subsection \<open>Graphics state operators\<close>

definition do_q :: "PDFPageInterpreter \<Rightarrow> result" where
  "do_q s = Inr (s\<lparr>gstack := gstack s @ [get_current_state s]\<rparr>)"

definition do_Q :: "PDFPageInterpreter \<Rightarrow> result" where
  "do_Q s =
     (if gstack s \<noteq> [] then
        Inr (set_current_state (last (gstack s)) (s\<lparr>gstack := butlast (gstack s)\<rparr>))
      else Inr s)"

definition do_cm ::
  "obj \<Rightarrow> obj \<Rightarrow> obj \<Rightarrow> obj \<Rightarrow> obj \<Rightarrow> obj \<Rightarrow> PDFPageInterpreter \<Rightarrow> result" where
  "do_cm a1 b1 c1 d1 e1 f1 s =
     ebind (unpack_matrix [a1, b1, c1, d1, e1, f1]) (\<lambda>m.
       let s1 = s\<lparr>ctm := mult_matrix m (ctm s)\<rparr>
       in Inr (device_call (set_ctm (ctm s1)) s1))"

definition do_w :: "obj \<Rightarrow> PDFPageInterpreter \<Rightarrow> result" where
  "do_w lw s = Inr (s\<lparr>graphicstate := (graphicstate s)\<lparr>linewidth := lw\<rparr>\<rparr>)"

definition do_J :: "obj \<Rightarrow> PDFPageInterpreter \<Rightarrow> result" where
  "do_J lc s = Inr (s\<lparr>graphicstate := (graphicstate s)\<lparr>linecap := lc\<rparr>\<rparr>)"

definition do_j :: "obj \<Rightarrow> PDFPageInterpreter \<Rightarrow> result" where
  "do_j lj s = Inr (s\<lparr>graphicstate := (graphicstate s)\<lparr>linejoin := lj\<rparr>\<rparr>)"

definition do_M :: "obj \<Rightarrow> PDFPageInterpreter \<Rightarrow> result" where
  "do_M ml s = Inr (s\<lparr>graphicstate := (graphicstate s)\<lparr>miterlimit := ml\<rparr>\<rparr>)"

definition do_d :: "obj \<Rightarrow> obj \<Rightarrow> PDFPageInterpreter \<Rightarrow> result" where
  "do_d da phase s = Inr (s\<lparr>graphicstate := (graphicstate s)\<lparr>dash := Some (da, phase)\<rparr>\<rparr>)"

definition do_ri :: "obj \<Rightarrow> PDFPageInterpreter \<Rightarrow> result" where
  "do_ri i s = Inr (s\<lparr>graphicstate := (graphicstate s)\<lparr>intent := i\<rparr>\<rparr>)"

definition do_i :: "obj \<Rightarrow> PDFPageInterpreter \<Rightarrow> result" where
  "do_i fl s = Inr (s\<lparr>graphicstate := (graphicstate s)\<lparr>flatness := fl\<rparr>\<rparr>)"

definition do_gs :: "obj \<Rightarrow> PDFPageInterpreter \<Rightarrow> result" where
  "do_gs nm s = Inr s"

subsection \<open>Path construction and painting\<close>

definition append_path :: "PathSegment \<Rightarrow> PDFPageInterpreter \<Rightarrow> PDFPageInterpreter" where
  "append_path seg s = s\<lparr>curpath := curpath s @ [seg]\<rparr>"

definition do_m :: "obj \<Rightarrow> obj \<Rightarrow> PDFPageInterpreter \<Rightarrow> result" where
  "do_m x y s = Inr (append_path (Move x y) s)"

definition do_l :: "obj \<Rightarrow> obj \<Rightarrow> PDFPageInterpreter \<Rightarrow> result" where
  "do_l x y s = Inr (append_path (Line x y) s)"

definition do_c ::
  "obj \<Rightarrow> obj \<Rightarrow> obj \<Rightarrow> obj \<Rightarrow> obj \<Rightarrow> obj \<Rightarrow> PDFPageInterpreter \<Rightarrow> result" where
  "do_c x1 y1 x2 y2 x3 y3 s = Inr (append_path (Curve3 x1 y1 x2 y2 x3 y3) s)"

definition do_v :: "obj \<Rightarrow> obj \<Rightarrow> obj \<Rightarrow> obj \<Rightarrow> PDFPageInterpreter \<Rightarrow> result" where
  "do_v x2 y2 x3 y3 s = Inr (append_path (CurveV x2 y2 x3 y3) s)"

definition do_y :: "obj \<Rightarrow> obj \<Rightarrow> obj \<Rightarrow> obj \<Rightarrow> PDFPageInterpreter \<Rightarrow> result" where
  "do_y x1 y1 x3 y3 s = Inr (append_path (CurveY x1 y1 x3 y3) s)"

definition do_h :: "PDFPageInterpreter \<Rightarrow> result" where
  "do_h s = Inr (append_path Close s)"

definition do_re :: "obj \<Rightarrow> obj \<Rightarrow> obj \<Rightarrow> obj \<Rightarrow> PDFPageInterpreter \<Rightarrow> result" where
  "do_re x y w h s =
     (let s1 = append_path (Move x y) s in
      ebind (py_add x w) (\<lambda>xw.
        let s2 = append_path (Line xw y) s1 in
        ebind (py_add y h) (\<lambda>yh.
          let s3 = append_path (Line xw yh) s2;
              s4 = append_path (Line x yh) s3
          in Inr (append_path Close s4))))"

definition do_S :: "PDFPageInterpreter \<Rightarrow> result" where
  "do_S s =
     Inr ((device_call (paint_path (graphicstate s) True False False (curpath s)) s)
            \<lparr>curpath := []\<rparr>)"

definition do_s :: "PDFPageInterpreter \<Rightarrow> result" where
  "do_s s = ebind (do_h s) do_S"

definition do_f :: "PDFPageInterpreter \<Rightarrow> result" where
  "do_f s =
     Inr ((device_call (paint_path (graphicstate s) False True False (curpath s)) s)
            \<lparr>curpath := []\<rparr>)"

definition do_F :: "PDFPageInterpreter \<Rightarrow> result" where
  "do_F s = Inr s"

definition do_f_a :: "PDFPageInterpreter \<Rightarrow> result" where
  "do_f_a s =
     Inr ((device_call (paint_path (graphicstate s) False True True (curpath s)) s)
            \<lparr>curpath := []\<rparr>)"

definition do_B :: "PDFPageInterpreter \<Rightarrow> result" where
  "do_B s =
     Inr ((device_call (paint_path (graphicstate s) True True False (curpath s)) s)
            \<lparr>curpath := []\<rparr>)"

definition do_B_a :: "PDFPageInterpreter \<Rightarrow> result" where
  "do_B_a s =
     Inr ((device_call (paint_path (graphicstate s) True True True (curpath s)) s)
            \<lparr>curpath := []\<rparr>)"

definition do_b :: "PDFPageInterpreter \<Rightarrow> result" where
  "do_b s = ebind (do_h s) do_B"

definition do_b_a :: "PDFPageInterpreter \<Rightarrow> result" where
  "do_b_a s = ebind (do_h s) do_B_a"

definition do_n :: "PDFPageInterpreter \<Rightarrow> result" where
  "do_n s = Inr (s\<lparr>curpath := []\<rparr>)"

definition do_W :: "PDFPageInterpreter \<Rightarrow> result" where
  "do_W s = Inr s"

definition do_W_a :: "PDFPageInterpreter \<Rightarrow> result" where
  "do_W_a s = Inr s"

subsection \<open>Color operators\<close>

definition do_CS :: "externals \<Rightarrow> obj \<Rightarrow> PDFPageInterpreter \<Rightarrow> result" where
  "do_CS X nm s =
     ebind (literal_name X nm) (\<lambda>n.
       case map_of (csmap s) n of
         Some cs \<Rightarrow> Inr (s\<lparr>scs := Some cs\<rparr>)
       | None \<Rightarrow> if STRICT X then Inl PDFInterpreterError else Inr s)"

definition do_cs :: "externals \<Rightarrow> obj \<Rightarrow> PDFPageInterpreter \<Rightarrow> result" where
  "do_cs X nm s =
     ebind (literal_name X nm) (\<lambda>n.
       case map_of (csmap s) n of
         Some cs \<Rightarrow> Inr (s\<lparr>ncs := Some cs\<rparr>)
       | None \<Rightarrow> if STRICT X then Inl PDFInterpreterError else Inr s)"

definition set_scolor :: "obj \<Rightarrow> string \<Rightarrow> PDFPageInterpreter \<Rightarrow> result" where
  "set_scolor col space s =
     (let s1 = s\<lparr>graphicstate := (graphicstate s)\<lparr>scolor := col\<rparr>\<rparr>
      in ebind (dict_getitem (csmap s1) space) (\<lambda>cs. Inr (s1\<lparr>scs := Some cs\<rparr>)))"

definition set_ncolor :: "obj \<Rightarrow> string \<Rightarrow> PDFPageInterpreter \<Rightarrow> result" where
  "set_ncolor col space s =
     (let s1 = s\<lparr>graphicstate := (graphicstate s)\<lparr>ncolor := col\<rparr>\<rparr>
      in ebind (dict_getitem (csmap s1) space) (\<lambda>cs. Inr (s1\<lparr>ncs := Some cs\<rparr>)))"

definition do_G :: "obj \<Rightarrow> PDFPageInterpreter \<Rightarrow> result" where
  "do_G gray s = set_scolor gray ''DeviceGray'' s"

definition do_g :: "obj \<Rightarrow> PDFPageInterpreter \<Rightarrow> result" where
  "do_g gray s = set_ncolor gray ''DeviceGray'' s"

definition do_RG :: "obj \<Rightarrow> obj \<Rightarrow> obj \<Rightarrow> PDFPageInterpreter \<Rightarrow> result" where
  "do_RG r g b s = set_scolor (OTuple [r, g, b]) ''DeviceRGB'' s"

definition do_rg :: "obj \<Rightarrow> obj \<Rightarrow> obj \<Rightarrow> PDFPageInterpreter \<Rightarrow> result" where
  "do_rg r g b s = set_ncolor (OTuple [r, g, b]) ''DeviceRGB'' s"

definition do_K :: "obj \<Rightarrow> obj \<Rightarrow> obj \<Rightarrow> obj \<Rightarrow> PDFPageInterpreter \<Rightarrow> result" where
  "do_K c m y k s = set_scolor (OTuple [c, m, y, k]) ''DeviceCMYK'' s"

definition do_k :: "obj \<Rightarrow> obj \<Rightarrow> obj \<Rightarrow> obj \<Rightarrow> PDFPageInterpreter \<Rightarrow> result" where
  "do_k c m y k s = set_ncolor (OTuple [c, m, y, k]) ''DeviceCMYK'' s"

text \<open>
  \<^verbatim>\<open>if self.scs:\<close> tests an instance of \<^verbatim>\<open>PDFColorSpace\<close>, which is true of every
  instance, so the \<^verbatim>\<open>else\<close> branch is the case \<^verbatim>\<open>None\<close>.
\<close>

definition do_SCN :: "externals \<Rightarrow> PDFPageInterpreter \<Rightarrow> result" where
  "do_SCN X s =
     ebind (case scs s of
              Some cs \<Rightarrow> Inr (ncomponents cs)
            | None \<Rightarrow> if STRICT X then Inl PDFInterpreterError else Inr (ONum 1)) (\<lambda>n.
     ebind (as_index n) (\<lambda>n.
       case pop n s of (x, s1) \<Rightarrow>
         Inr (s1\<lparr>graphicstate := (graphicstate s1)\<lparr>scolor := OList x\<rparr>\<rparr>)))"

definition do_scn :: "externals \<Rightarrow> PDFPageInterpreter \<Rightarrow> result" where
  "do_scn X s =
     ebind (case ncs s of
              Some cs \<Rightarrow> Inr (ncomponents cs)
            | None \<Rightarrow> if STRICT X then Inl PDFInterpreterError else Inr (ONum 1)) (\<lambda>n.
     ebind (as_index n) (\<lambda>n.
       case pop n s of (x, s1) \<Rightarrow>
         Inr (s1\<lparr>graphicstate := (graphicstate s1)\<lparr>ncolor := OList x\<rparr>\<rparr>)))"

definition do_SC :: "externals \<Rightarrow> PDFPageInterpreter \<Rightarrow> result" where
  "do_SC X s = do_SCN X s"

definition do_sc :: "externals \<Rightarrow> PDFPageInterpreter \<Rightarrow> result" where
  "do_sc X s = do_scn X s"

definition do_sh :: "obj \<Rightarrow> PDFPageInterpreter \<Rightarrow> result" where
  "do_sh nm s = Inr s"

subsection \<open>Text objects, marked content\<close>

definition do_BT :: "PDFPageInterpreter \<Rightarrow> result" where
  "do_BT s = Inr (s\<lparr>textstate := reset (textstate s)\<rparr>)"

definition do_ET :: "PDFPageInterpreter \<Rightarrow> result" where
  "do_ET s = Inr s"

definition do_BX :: "PDFPageInterpreter \<Rightarrow> result" where
  "do_BX s = Inr s"

definition do_EX :: "PDFPageInterpreter \<Rightarrow> result" where
  "do_EX s = Inr s"

definition do_MP :: "obj \<Rightarrow> PDFPageInterpreter \<Rightarrow> result" where
  "do_MP tag s = Inr (device_call (do_tag tag None) s)"

definition do_DP :: "obj \<Rightarrow> obj \<Rightarrow> PDFPageInterpreter \<Rightarrow> result" where
  "do_DP tag props s = Inr (device_call (do_tag tag (Some props)) s)"

definition do_BMC :: "obj \<Rightarrow> PDFPageInterpreter \<Rightarrow> result" where
  "do_BMC tag s = Inr (device_call (begin_tag tag None) s)"

definition do_BDC :: "obj \<Rightarrow> obj \<Rightarrow> PDFPageInterpreter \<Rightarrow> result" where
  "do_BDC tag props s = Inr (device_call (begin_tag tag (Some props)) s)"

definition do_EMC :: "PDFPageInterpreter \<Rightarrow> result" where
  "do_EMC s = Inr (device_call end_tag s)"

subsection \<open>Text state operators\<close>

definition do_Tc :: "obj \<Rightarrow> PDFPageInterpreter \<Rightarrow> result" where
  "do_Tc space s = Inr (s\<lparr>textstate := (textstate s)\<lparr>charspace := space\<rparr>\<rparr>)"

definition do_Tw :: "obj \<Rightarrow> PDFPageInterpreter \<Rightarrow> result" where
  "do_Tw space s = Inr (s\<lparr>textstate := (textstate s)\<lparr>wordspace := space\<rparr>\<rparr>)"

definition do_Tz :: "obj \<Rightarrow> PDFPageInterpreter \<Rightarrow> result" where
  "do_Tz scale s = Inr (s\<lparr>textstate := (textstate s)\<lparr>scaling := scale\<rparr>\<rparr>)"

definition do_TL :: "obj \<Rightarrow> PDFPageInterpreter \<Rightarrow> result" where
  "do_TL l s =
     ebind (as_number l) (\<lambda>r. Inr (s\<lparr>textstate := (textstate s)\<lparr>leading := - r\<rparr>\<rparr>))"

definition do_Tf :: "externals \<Rightarrow> obj \<Rightarrow> obj \<Rightarrow> PDFPageInterpreter \<Rightarrow> result" where
  "do_Tf X fontid fontsize_arg s =
     ebind (literal_name X fontid) (\<lambda>n.
     ebind (case map_of (fontmap s) n of
              Some f \<Rightarrow> Inr f
            | None \<Rightarrow> if STRICT X then Inl PDFInterpreterError else get_font X (ODict [])) (\<lambda>f.
       Inr (s\<lparr>textstate := (textstate s)\<lparr>font := Some f, fontsize := fontsize_arg\<rparr>\<rparr>)))"

definition do_Tr :: "obj \<Rightarrow> PDFPageInterpreter \<Rightarrow> result" where
  "do_Tr r s = Inr (s\<lparr>textstate := (textstate s)\<lparr>render := r\<rparr>\<rparr>)"

definition do_Ts :: "obj \<Rightarrow> PDFPageInterpreter \<Rightarrow> result" where
  "do_Ts r s = Inr (s\<lparr>textstate := (textstate s)\<lparr>rise := r\<rparr>\<rparr>)"

text \<open>\<^verbatim>\<open>x * a + y * c + e\<close> for floats \<open>x\<close>, \<open>y\<close> and entries \<open>a\<close>, \<open>c\<close>, \<open>e\<close> of a matrix.\<close>

definition lin :: "real \<Rightarrow> obj \<Rightarrow> real \<Rightarrow> obj \<Rightarrow> obj \<Rightarrow> error + obj" where
  "lin x a y c e =
     ebind (as_number a) (\<lambda>a'. ebind (as_number c) (\<lambda>c'. ebind (as_number e) (\<lambda>e'.
       Inr (ONum (x * a' + y * c' + e')))))"

definition do_Td :: "externals \<Rightarrow> obj \<Rightarrow> obj \<Rightarrow> PDFPageInterpreter \<Rightarrow> result" where
  "do_Td X tx ty s =
     ebind (case (safe_float tx, safe_float ty) of
              (Some tx', Some ty') \<Rightarrow>
                (case matrix (textstate s) of (a, b, c, d, e, f) \<Rightarrow>
                   ebind (lin tx' a ty' c e) (\<lambda>e_new.
                   ebind (lin tx' b ty' d f) (\<lambda>f_new.
                     Inr (s\<lparr>textstate := (textstate s)\<lparr>matrix := (a, b, c, d, e_new, f_new)\<rparr>\<rparr>))))
            | _ \<Rightarrow> if STRICT X then Inl PDFValueError else Inr s) (\<lambda>s1.
       Inr (s1\<lparr>textstate := (textstate s1)\<lparr>linematrix := (0, 0)\<rparr>\<rparr>))"

definition do_TD :: "externals \<Rightarrow> obj \<Rightarrow> obj \<Rightarrow> PDFPageInterpreter \<Rightarrow> result" where
  "do_TD X tx ty s =
     ebind (case (safe_float tx, safe_float ty) of
              (Some tx', Some ty') \<Rightarrow>
                (case matrix (textstate s) of (a, b, c, d, e, f) \<Rightarrow>
                   ebind (lin tx' a ty' c e) (\<lambda>e_new.
                   ebind (lin tx' b ty' d f) (\<lambda>f_new.
                     Inr (s\<lparr>textstate := (textstate s)\<lparr>matrix := (a, b, c, d, e_new, f_new)\<rparr>\<rparr>))))
            | _ \<Rightarrow> if STRICT X then Inl PDFValueError else Inr s) (\<lambda>s1.
       let s2 = (case safe_float ty of
                   Some ty' \<Rightarrow> s1\<lparr>textstate := (textstate s1)\<lparr>leading := ty'\<rparr>\<rparr>
                 | None \<Rightarrow> s1)
       in Inr (s2\<lparr>textstate := (textstate s2)\<lparr>linematrix := (0, 0)\<rparr>\<rparr>))"

definition do_Tm ::
  "obj \<Rightarrow> obj \<Rightarrow> obj \<Rightarrow> obj \<Rightarrow> obj \<Rightarrow> obj \<Rightarrow> PDFPageInterpreter \<Rightarrow> result" where
  "do_Tm a b c d e f s =
     Inr (s\<lparr>textstate := (textstate s)\<lparr>matrix := (a, b, c, d, e, f), linematrix := (0, 0)\<rparr>\<rparr>)"

definition do_T_a :: "PDFPageInterpreter \<Rightarrow> result" where
  "do_T_a s =
     (case matrix (textstate s) of (a, b, c, d, e, f) \<Rightarrow>
        ebind (lin (leading (textstate s)) c 0 (ONum 0) e) (\<lambda>e_new.
        ebind (lin (leading (textstate s)) d 0 (ONum 0) f) (\<lambda>f_new.
          Inr (s\<lparr>textstate := (textstate s)\<lparr>matrix := (a, b, c, d, e_new, f_new),
                                             linematrix := (0, 0)\<rparr>\<rparr>))))"

subsection \<open>Text showing operators\<close>

definition do_TJ :: "externals \<Rightarrow> obj \<Rightarrow> obj \<Rightarrow> PDFPageInterpreter \<Rightarrow> result" where
  "do_TJ X seq instruction_index s =
     (if font (textstate s) = None then
        (if STRICT X then Inl PDFInterpreterError else Inr s)
      else
        (case ncs s of
           None \<Rightarrow> Inl AssertionError
         | Some cs \<Rightarrow>
             Inr (device_call
                    (render_string (textstate s) seq cs
                       (PDFGraphicState_copy (graphicstate s)) instruction_index) s)))"

definition do_Tj :: "externals \<Rightarrow> obj \<Rightarrow> obj \<Rightarrow> PDFPageInterpreter \<Rightarrow> result" where
  "do_Tj X str instruction_index s = do_TJ X (OList [str]) instruction_index s"

definition do__q :: "externals \<Rightarrow> obj \<Rightarrow> obj \<Rightarrow> PDFPageInterpreter \<Rightarrow> result" where
  "do__q X str instruction_index s =
     ebind (do_T_a s) (do_TJ X (OList [str]) instruction_index)"

definition do__w ::
  "externals \<Rightarrow> obj \<Rightarrow> obj \<Rightarrow> obj \<Rightarrow> obj \<Rightarrow> PDFPageInterpreter \<Rightarrow> result" where
  "do__w X aw ac str instruction_index s =
     ebind (do_Tw aw s) (\<lambda>s1.
     ebind (do_Tc ac s1) (do_TJ X (OList [str]) instruction_index))"

subsection \<open>Inline images and XObjects\<close>

definition do_BI :: "PDFPageInterpreter \<Rightarrow> result" where
  "do_BI s = Inr s"

definition do_ID :: "PDFPageInterpreter \<Rightarrow> result" where
  "do_ID s = Inr s"

definition do_EI :: "externals \<Rightarrow> obj \<Rightarrow> PDFPageInterpreter \<Rightarrow> result" where
  "do_EI X x s =
     (case x of
        OStream attrs data \<Rightarrow>
          if map_of attrs ''W'' \<noteq> None \<and> map_of attrs ''H'' \<noteq> None then
            (let iobjid = py_id X x;
                 s1 = device_call
                        (begin_figure iobjid (OTuple [ONum 0, ONum 0, ONum 1, ONum 1])
                           (matrix_obj MATRIX_IDENTITY)) s;
                 s2 = device_call (render_image iobjid x) s1
             in Inr (device_call (end_figure iobjid) s2))
          else Inr s
      | _ \<Rightarrow> Inr s)"

text \<open>\<^verbatim>\<open>self.resources.copy()\<close>: of the objects here, dictionaries and lists have it.\<close>

fun py_copy :: "obj \<Rightarrow> error + obj" where
  "py_copy (ODict d) = Inr (ODict d)"
| "py_copy (OList xs) = Inr (OList xs)"
| "py_copy _ = Inl AttributeError"

text \<open>
  The recursive call \<^verbatim>\<open>interpreter.render_contents(resources, [xobj], ctm=...)\<close> of
  \<^verbatim>\<open>do_Do\<close> is the parameter \<open>rc\<close>: it takes the resources, the streams, the matrix and
  the child interpreter, and returns the child when it is done.
\<close>

type_synonym renderer = "obj \<Rightarrow> obj \<Rightarrow> Matrix \<Rightarrow> PDFPageInterpreter \<Rightarrow> result"

definition do_Do :: "externals \<Rightarrow> renderer \<Rightarrow> obj \<Rightarrow> PDFPageInterpreter \<Rightarrow> result" where
  "do_Do X rc xobjid_arg s =
     ebind (literal_name X xobjid_arg) (\<lambda>xobjid.
       case map_of (xobjmap s) xobjid of
         None \<Rightarrow> if STRICT X then Inl PDFInterpreterError else Inr s
       | Some v \<Rightarrow>
           ebind (stream_value X v) (\<lambda>(attrs, data).
             let xobj = OStream attrs data;
                 subtype = map_of attrs ''Subtype''
             in
             if subtype = Some (OLit ''Form'') \<and> map_of attrs ''BBox'' \<noteq> None then
               (let interpreter = dup s in
                ebind (dict_getitem attrs ''BBox'') (\<lambda>bb.
                ebind (list_value X bb) (\<lambda>bbox.
                ebind (list_value X (case map_of attrs ''Matrix'' of
                                       None \<Rightarrow> matrix_obj MATRIX_IDENTITY
                                     | Some m \<Rightarrow> m)) (\<lambda>mat.
                let xobjres = (case map_of attrs ''Resources'' of
                                 None \<Rightarrow> ONull | Some r \<Rightarrow> r)
                in
                ebind (if truthy xobjres
                       then ebind (dict_value X xobjres) (\<lambda>d. Inr (ODict d))
                       else py_copy (resources s)) (\<lambda>res.
                let s1 = device_call (begin_figure xobjid bbox mat) s in
                ebind (unpack_matrix (elems mat)) (\<lambda>m.
                ebind (rc res (OList [xobj]) (mult_matrix m (ctm s))
                         (interpreter\<lparr>device := device s1\<rparr>)) (\<lambda>child.
                  Inr (device_call (end_figure xobjid) (s1\<lparr>device := device child\<rparr>)))))))))
             else if subtype = Some (OLit ''Image'') \<and> map_of attrs ''Width'' \<noteq> None
                     \<and> map_of attrs ''Height'' \<noteq> None then
               (let s1 = device_call
                           (begin_figure xobjid (OTuple [ONum 0, ONum 0, ONum 1, ONum 1])
                              (matrix_obj MATRIX_IDENTITY)) s;
                    s2 = device_call (render_image xobjid xobj) s1
                in Inr (device_call (end_figure xobjid) s2))
             else Inr s))"

subsection \<open>The dispatcher\<close>

text \<open>
  \<^verbatim>\<open>execute\<close> finds the handler by its name, \<^verbatim>\<open>"do_" + name\<close> with \<^verbatim>\<open>*\<close>, \<^verbatim>\<open>"\<close>
  and \<^verbatim>\<open>'\<close> replaced, and reads the number of its parameters from
  \<^verbatim>\<open>func.__code__.co_argcount\<close>. The table \<open>methods\<close> lists the \<^verbatim>\<open>do_\<close> methods of
  the class: the name, \<^verbatim>\<open>co_argcount\<close> (\<^verbatim>\<open>self\<close> and the parameters with a default
  included), and the handler applied to a list of positional arguments.
\<close>

definition replace :: "char \<Rightarrow> string \<Rightarrow> string \<Rightarrow> string" where
  "replace c r str = concat (map (\<lambda>x. if x = c then r else [x]) str)"

definition method_name :: "string \<Rightarrow> string" where
  "method_name nm =
     ''do_'' @ replace (CHR 0x27) ''_q'' (replace (CHR 0x22) ''_w'' (replace (CHR ''*'') ''_a'' nm))"

type_synonym handler = "obj list \<Rightarrow> PDFPageInterpreter \<Rightarrow> result"

text \<open>A call with the wrong number of arguments raises \<^verbatim>\<open>TypeError\<close>.\<close>

definition args0 :: "(PDFPageInterpreter \<Rightarrow> result) \<Rightarrow> handler" where
  "args0 f args s = (case args of [] \<Rightarrow> f s | _ \<Rightarrow> Inl TypeError)"

definition args1 :: "(obj \<Rightarrow> PDFPageInterpreter \<Rightarrow> result) \<Rightarrow> handler" where
  "args1 f args s = (case args of [a] \<Rightarrow> f a s | _ \<Rightarrow> Inl TypeError)"

definition args2 :: "(obj \<Rightarrow> obj \<Rightarrow> PDFPageInterpreter \<Rightarrow> result) \<Rightarrow> handler" where
  "args2 f args s = (case args of [a, b] \<Rightarrow> f a b s | _ \<Rightarrow> Inl TypeError)"

definition args3 :: "(obj \<Rightarrow> obj \<Rightarrow> obj \<Rightarrow> PDFPageInterpreter \<Rightarrow> result) \<Rightarrow> handler" where
  "args3 f args s = (case args of [a, b, c] \<Rightarrow> f a b c s | _ \<Rightarrow> Inl TypeError)"

definition args4 ::
  "(obj \<Rightarrow> obj \<Rightarrow> obj \<Rightarrow> obj \<Rightarrow> PDFPageInterpreter \<Rightarrow> result) \<Rightarrow> handler" where
  "args4 f args s = (case args of [a, b, c, d] \<Rightarrow> f a b c d s | _ \<Rightarrow> Inl TypeError)"

definition args6 ::
  "(obj \<Rightarrow> obj \<Rightarrow> obj \<Rightarrow> obj \<Rightarrow> obj \<Rightarrow> obj \<Rightarrow> PDFPageInterpreter \<Rightarrow> result) \<Rightarrow> handler" where
  "args6 f args x =
     (case args of [a, b, c, d, e, f'] \<Rightarrow> f a b c d e f' x | _ \<Rightarrow> Inl TypeError)"

text \<open>Methods whose last parameter is \<^verbatim>\<open>instruction_index: int = None\<close>.\<close>

definition args1_index :: "(obj \<Rightarrow> obj \<Rightarrow> PDFPageInterpreter \<Rightarrow> result) \<Rightarrow> handler" where
  "args1_index f args s =
     (case args of [a] \<Rightarrow> f a ONull s | [a, i] \<Rightarrow> f a i s | _ \<Rightarrow> Inl TypeError)"

definition args3_index ::
  "(obj \<Rightarrow> obj \<Rightarrow> obj \<Rightarrow> obj \<Rightarrow> PDFPageInterpreter \<Rightarrow> result) \<Rightarrow> handler" where
  "args3_index f args s =
     (case args of
        [a, b, c] \<Rightarrow> f a b c ONull s
      | [a, b, c, i] \<Rightarrow> f a b c i s
      | _ \<Rightarrow> Inl TypeError)"

definition methods :: "externals \<Rightarrow> renderer \<Rightarrow> (string \<times> nat \<times> handler) list" where
  "methods X rc =
     [(''do_q'', 1, args0 do_q),
      (''do_Q'', 1, args0 do_Q),
      (''do_cm'', 7, args6 do_cm),
      (''do_w'', 2, args1 do_w),
      (''do_J'', 2, args1 do_J),
      (''do_j'', 2, args1 do_j),
      (''do_M'', 2, args1 do_M),
      (''do_d'', 3, args2 do_d),
      (''do_ri'', 2, args1 do_ri),
      (''do_i'', 2, args1 do_i),
      (''do_gs'', 2, args1 do_gs),
      (''do_m'', 3, args2 do_m),
      (''do_l'', 3, args2 do_l),
      (''do_c'', 7, args6 do_c),
      (''do_v'', 5, args4 do_v),
      (''do_y'', 5, args4 do_y),
      (''do_h'', 1, args0 do_h),
      (''do_re'', 5, args4 do_re),
      (''do_S'', 1, args0 do_S),
      (''do_s'', 1, args0 do_s),
      (''do_f'', 1, args0 do_f),
      (''do_F'', 1, args0 do_F),
      (''do_f_a'', 1, args0 do_f_a),
      (''do_B'', 1, args0 do_B),
      (''do_B_a'', 1, args0 do_B_a),
      (''do_b'', 1, args0 do_b),
      (''do_b_a'', 1, args0 do_b_a),
      (''do_n'', 1, args0 do_n),
      (''do_W'', 1, args0 do_W),
      (''do_W_a'', 1, args0 do_W_a),
      (''do_CS'', 2, args1 (do_CS X)),
      (''do_cs'', 2, args1 (do_cs X)),
      (''do_G'', 2, args1 do_G),
      (''do_g'', 2, args1 do_g),
      (''do_RG'', 4, args3 do_RG),
      (''do_rg'', 4, args3 do_rg),
      (''do_K'', 5, args4 do_K),
      (''do_k'', 5, args4 do_k),
      (''do_SCN'', 1, args0 (do_SCN X)),
      (''do_scn'', 1, args0 (do_scn X)),
      (''do_SC'', 1, args0 (do_SC X)),
      (''do_sc'', 1, args0 (do_sc X)),
      (''do_sh'', 2, args1 do_sh),
      (''do_BT'', 1, args0 do_BT),
      (''do_ET'', 1, args0 do_ET),
      (''do_BX'', 1, args0 do_BX),
      (''do_EX'', 1, args0 do_EX),
      (''do_MP'', 2, args1 do_MP),
      (''do_DP'', 3, args2 do_DP),
      (''do_BMC'', 2, args1 do_BMC),
      (''do_BDC'', 3, args2 do_BDC),
      (''do_EMC'', 1, args0 do_EMC),
      (''do_Tc'', 2, args1 do_Tc),
      (''do_Tw'', 2, args1 do_Tw),
      (''do_Tz'', 2, args1 do_Tz),
      (''do_TL'', 2, args1 do_TL),
      (''do_Tf'', 3, args2 (do_Tf X)),
      (''do_Tr'', 2, args1 do_Tr),
      (''do_Ts'', 2, args1 do_Ts),
      (''do_Td'', 3, args2 (do_Td X)),
      (''do_TD'', 3, args2 (do_TD X)),
      (''do_Tm'', 7, args6 do_Tm),
      (''do_T_a'', 1, args0 do_T_a),
      (''do_TJ'', 3, args1_index (do_TJ X)),
      (''do_Tj'', 3, args1_index (do_Tj X)),
      (''do__q'', 3, args1_index (do__q X)),
      (''do__w'', 5, args3_index (do__w X)),
      (''do_BI'', 1, args0 do_BI),
      (''do_ID'', 1, args0 do_ID),
      (''do_EI'', 2, args1 (do_EI X)),
      (''do_Do'', 2, args1 (do_Do X rc))]"

text \<open>The instruction index as the object passed on: \<^verbatim>\<open>None\<close> or the integer.\<close>

definition index_obj :: "nat option \<Rightarrow> obj" where
  "index_obj i = (case i of None \<Rightarrow> ONull | Some n \<Rightarrow> ONum (real n))"

definition with_index :: "string list" where
  "with_index = [''do_TJ'', ''do_Tj'', ''do_T_w'', ''do_T_q'']"

text \<open>The body of the loop of \<^verbatim>\<open>execute\<close> for a keyword.\<close>

definition exec_keyword ::
  "externals \<Rightarrow> renderer \<Rightarrow> string \<Rightarrow> nat option \<Rightarrow> PDFPageInterpreter \<Rightarrow> result" where
  "exec_keyword X rc nm instruction_index s =
     (let mname = method_name nm in
      case map_of (methods X rc) mname of
        Some (co_argcount, func) \<Rightarrow>
          (let nargs = co_argcount - 1;
               nargs = (if mname \<in> set with_index then nargs - 1 else nargs)
           in
           if nargs \<noteq> 0 then
             (case pop (int nargs) s of (args, s1) \<Rightarrow>
                if length args = nargs then
                  (if mname \<in> set with_index
                   then func (args @ [index_obj instruction_index]) s1
                   else func args s1)
                else Inr s1)
           else func [] s)
      | None \<Rightarrow> if STRICT X then Inl PDFInterpreterError else Inr s)"

fun execute_tokens ::
  "externals \<Rightarrow> renderer \<Rightarrow> token list \<Rightarrow> PDFPageInterpreter \<Rightarrow> result" where
  "execute_tokens X rc [] s = Inr s"
| "execute_tokens X rc (Operand x # ts) s = execute_tokens X rc ts (push x s)"
| "execute_tokens X rc (Keyword nm i # ts) s =
     ebind (exec_keyword X rc nm i s) (execute_tokens X rc ts)"

definition execute :: "externals \<Rightarrow> renderer \<Rightarrow> obj list \<Rightarrow> PDFPageInterpreter \<Rightarrow> result" where
  "execute X rc streams s = execute_tokens X rc (nextobjects X streams) s"

text \<open>
  Token sequences whose save/restore pairs are nested: every \<^verbatim>\<open>Q\<close> closes a \<^verbatim>\<open>q\<close> of
  the sequence (or one of the \<open>d\<close> that are open where it starts), and none stays open.
\<close>

fun nested :: "nat \<Rightarrow> token list \<Rightarrow> bool" where
  "nested d [] = (d = 0)"
| "nested d (Operand x # ts) = nested d ts"
| "nested d (Keyword nm i # ts) =
     (if nm = ''q'' then nested (Suc d) ts
      else if nm = ''Q'' then 0 < d \<and> nested (d - 1) ts
      else nested d ts)"

subsection \<open>Resources\<close>

definition get_colorspace :: "externals \<Rightarrow> obj \<Rightarrow> error + PDFColorSpace option" where
  "get_colorspace X spec =
     ebind (case spec of
              OList [] \<Rightarrow> Inl IndexError
            | OList (x # xs) \<Rightarrow> literal_name X x
            | _ \<Rightarrow> literal_name X spec) (\<lambda>nm.
       case spec of
         OList (x # y # ys) \<Rightarrow>
           if nm = ''ICCBased'' then
             ebind (stream_value X y) (\<lambda>(attrs, data).
             ebind (dict_getitem attrs ''N'') (\<lambda>n. Inr (Some (PDFColorSpace nm n))))
           else if nm = ''DeviceN'' then
             ebind (list_value X y) (\<lambda>l.
               Inr (Some (PDFColorSpace nm (ONum (real (length (elems l)))))))
           else Inr (map_of (PREDEFINED_COLORSPACE X) nm)
       | _ \<Rightarrow> Inr (map_of (PREDEFINED_COLORSPACE X) nm))"

fun init_fonts ::
  "externals \<Rightarrow> (string \<times> obj) list \<Rightarrow> PDFPageInterpreter \<Rightarrow> result" where
  "init_fonts X [] s = Inr s"
| "init_fonts X ((fontid, spec) # rest) s =
     ebind (dict_value X spec) (\<lambda>d.
     ebind (get_font X (ODict d)) (\<lambda>f.
       init_fonts X rest (s\<lparr>fontmap := dict_setitem (fontmap s) fontid f\<rparr>)))"

fun init_colorspaces ::
  "externals \<Rightarrow> (string \<times> obj) list \<Rightarrow> PDFPageInterpreter \<Rightarrow> result" where
  "init_colorspaces X [] s = Inr s"
| "init_colorspaces X ((csid, spec) # rest) s =
     ebind (get_colorspace X spec) (\<lambda>colorspace.
       case colorspace of
         Some cs \<Rightarrow> init_colorspaces X rest (s\<lparr>csmap := dict_setitem (csmap s) csid cs\<rparr>)
       | None \<Rightarrow> init_colorspaces X rest s)"

fun init_xobjects :: "(string \<times> obj) list \<Rightarrow> PDFPageInterpreter \<Rightarrow> PDFPageInterpreter" where
  "init_xobjects [] s = s"
| "init_xobjects ((xobjid, xobjstrm) # rest) s =
     init_xobjects rest (s\<lparr>xobjmap := dict_setitem (xobjmap s) xobjid xobjstrm\<rparr>)"

fun init_items ::
  "externals \<Rightarrow> (string \<times> obj) list \<Rightarrow> PDFPageInterpreter \<Rightarrow> result" where
  "init_items X [] s = Inr s"
| "init_items X ((k, v) # rest) s =
     ebind (if k = ''Font'' then ebind (dict_value X v) (\<lambda>d. init_fonts X d s)
            else if k = ''ColorSpace'' then
              ebind (dict_value X v) (\<lambda>d. init_colorspaces X d s)
            else if k = ''ProcSet'' then ebind (list_value X v) (\<lambda>l. Inr s)
            else if k = ''XObject'' then
              ebind (dict_value X v) (\<lambda>d. Inr (init_xobjects d s))
            else Inr s) (init_items X rest)"

definition init_resources :: "externals \<Rightarrow> obj \<Rightarrow> PDFPageInterpreter \<Rightarrow> result" where
  "init_resources X res s =
     (let s1 = s\<lparr>resources := res, fontmap := [], xobjmap := [],
                 csmap := PREDEFINED_COLORSPACE X\<rparr>
      in if \<not> truthy res then Inr s1
         else ebind (dict_value X res) (\<lambda>d. init_items X d s1))"

subsection \<open>Rendering\<close>

definition render_contents ::
  "externals \<Rightarrow> renderer \<Rightarrow> obj \<Rightarrow> obj \<Rightarrow> Matrix \<Rightarrow> PDFPageInterpreter \<Rightarrow> result" where
  "render_contents X rc res streams ctm_arg s =
     ebind (init_resources X res s) (\<lambda>s1.
       let s2 = init_state ctm_arg s1 in
       ebind (list_value X streams) (\<lambda>l. execute X rc (elems l) s2))"

text \<open>
  \<^verbatim>\<open>render_contents\<close> with its recursion through \<^verbatim>\<open>do_Do\<close>, unfolded to a depth of
  nested Form XObjects. The source does not bound the depth; Python raises
  \<^verbatim>\<open>RecursionError\<close> when its stack is exhausted.
\<close>

fun render_depth :: "nat \<Rightarrow> externals \<Rightarrow> renderer" where
  "render_depth 0 X = (\<lambda>res streams ctm_arg s. Inl RecursionError)"
| "render_depth (Suc n) X = render_contents X (render_depth n X)"

subsection \<open>The content parser: inline images\<close>

text \<open>
  \<^verbatim>\<open>PDFContentParser\<close> reads the content streams one after the other through a
  buffer. \<open>fp\<close> is the \<^verbatim>\<open>BytesIO\<close> of the current stream (its bytes and its
  position), \<open>streams\<close> holds the stream objects (\<^verbatim>\<open>get_data()\<close> is the data of the
  object), and \<open>contexts\<close>, \<open>curtype\<close>, \<open>curstack\<close>, \<open>results\<close> are the stacks of
  \<^verbatim>\<open>PSStackParser\<close> (\<open>contexts\<close> is its attribute \<^verbatim>\<open>context\<close>). An entry of a stack
  is a tuple \<^verbatim>\<open>(pos, obj)\<close> or \<^verbatim>\<open>(pos, token, instruction_index)\<close>.
\<close>

datatype entry = Tuple2 nat psobj | Tuple3 nat psobj "nat option"

record PDFContentParser =
  streams :: "obj list"
  istream :: nat
  fp :: "(string \<times> nat) option"
  bufpos :: nat
  buf :: string
  charpos :: nat
  contexts :: "(nat \<times> string option \<times> entry list) list"
  curtype :: "string option"
  curstack :: "entry list"
  results :: "entry list"

definition fillfp :: "externals \<Rightarrow> PDFContentParser \<Rightarrow> error + PDFContentParser" where
  "fillfp X p =
     (case fp p of
        Some f \<Rightarrow> Inr p
      | None \<Rightarrow>
          if istream p < length (streams p) then
            ebind (stream_value X (streams p ! istream p)) (\<lambda>(attrs, data).
              Inr (p\<lparr>istream := istream p + 1, fp := Some (data, 0)\<rparr>))
          else Inl PSEOF)"

text \<open>
  \<^verbatim>\<open>fillbuf\<close>: nothing to do while the buffer has unread bytes; otherwise its loop
  reads the next \<open>BUFSIZ\<close> bytes, going to the next stream when the current one is
  exhausted, and raises \<^verbatim>\<open>PSEOF\<close> (from \<^verbatim>\<open>fillfp\<close>) after the last one.
\<close>

function fillbuf_loop :: "externals \<Rightarrow> PDFContentParser \<Rightarrow> error + PDFContentParser" where
  "fillbuf_loop X p =
     (case fillfp X p of
        Inl e \<Rightarrow> Inl e
      | Inr p1 \<Rightarrow>
          (case fp p1 of
             None \<Rightarrow> Inl AttributeError
           | Some (d, pos) \<Rightarrow>
               (let b = take (BUFSIZ X) (drop pos d);
                    p2 = p1\<lparr>bufpos := pos, buf := b, fp := Some (d, pos + length b)\<rparr>
                in if b \<noteq> [] then Inr p2 else fillbuf_loop X (p2\<lparr>fp := None\<rparr>))))"
  by pat_completeness auto
termination
proof (relation "measure (\<lambda>(X, p). 2 * (length (streams p) - istream p)
                                   + (if fp p = None then 0 else 1))")
  show "wf (measure (\<lambda>(X, p). 2 * (length (streams p) - istream p)
                                   + (if fp p = None then 0 else 1)))" by simp
next
  fix X p p1 x2 d pos b p2
  assume f: "fillfp X p = Inr p1" and "fp p1 = Some x2" "(d, pos) = x2"
    and b: "b = take (BUFSIZ X) (drop pos d)"
    and p2: "p2 = p1\<lparr>bufpos := pos, buf := b, fp := Some (d, pos + length b)\<rparr>"
  show "((X, p2\<lparr>fp := None\<rparr>), (X, p)) \<in> measure (\<lambda>(X, p). 2 * (length (streams p) - istream p)
                                   + (if fp p = None then 0 else 1))"
    using f p2
    by (auto simp: fillfp_def ebind_def split: option.splits if_splits sum.splits prod.splits)
qed

declare fillbuf_loop.simps [simp del]

definition fillbuf :: "externals \<Rightarrow> PDFContentParser \<Rightarrow> error + PDFContentParser" where
  "fillbuf X p =
     (if charpos p < length (buf p) then Inr p
      else ebind (fillbuf_loop X p) (\<lambda>p'. Inr (p'\<lparr>charpos := 0\<rparr>)))"

text \<open>
  Modelled from the spec: \<^verbatim>\<open>PSStackParser.seek\<close> and \<^verbatim>\<open>PSBaseParser.seek\<close> (module
  \<^verbatim>\<open>psparser\<close>) are not among the sources. After \<^verbatim>\<open>fillfp\<close>, the scanner is
  repositioned at \<open>pos\<close> of the current stream with an empty buffer, and the stacks of
  the parser are reset.
\<close>

definition seek :: "externals \<Rightarrow> nat \<Rightarrow> PDFContentParser \<Rightarrow> error + PDFContentParser" where
  "seek X pos p =
     ebind (fillfp X p) (\<lambda>p1.
       case fp p1 of
         None \<Rightarrow> Inl AttributeError
       | Some (d, old) \<Rightarrow>
           Inr (p1\<lparr>fp := Some (d, pos), bufpos := pos, buf := [], charpos := 0,
                   contexts := [], curtype := None, curstack := [], results := []\<rparr>))"

text \<open>\<^verbatim>\<open>bytes.isspace\<close> on one byte, and \<^verbatim>\<open>buf.index(c, start)\<close>.\<close>

definition isspace :: "char \<Rightarrow> bool" where
  "isspace c = (c \<in> set [CHR 0x20, CHR 0x09, CHR 0x0A, CHR 0x0D, CHR 0x0B, CHR 0x0C])"

definition index_from :: "string \<Rightarrow> char \<Rightarrow> nat \<Rightarrow> nat option" where
  "index_from b c start = find (\<lambda>j. b ! j = c) [start..<length b]"

text \<open>
  The bytes not yet read into the buffer, and those not yet consumed: the measure by
  which the scan for the end of an inline image terminates.
\<close>

definition stream_len :: "externals \<Rightarrow> obj \<Rightarrow> nat" where
  "stream_len X x = (case stream_value X x of Inl e \<Rightarrow> 0 | Inr (attrs, data) \<Rightarrow> length data)"

definition unread :: "externals \<Rightarrow> PDFContentParser \<Rightarrow> nat" where
  "unread X p =
     (case fp p of None \<Rightarrow> 0 | Some (d, pos) \<Rightarrow> length d - pos)
     + sum_list (map (stream_len X) (drop (istream p) (streams p)))"

definition remaining :: "externals \<Rightarrow> PDFContentParser \<Rightarrow> nat" where
  "remaining X p = (length (buf p) - charpos p) + unread X p"

lemma fillfp_unread:
  assumes "fillfp X p = Inr p1"
  shows "unread X p1 = unread X p \<and> fp p1 \<noteq> None \<and> buf p1 = buf p \<and> charpos p1 = charpos p
         \<and> length (streams p1) - istream p1 \<le> length (streams p) - istream p"
proof (cases "fp p")
  case (Some f)
  with assms show ?thesis by (simp add: fillfp_def)
next
  case None
  with assms have lt: "istream p < length (streams p)"
    by (simp add: fillfp_def split: if_splits)
  from assms None lt obtain attrs data where
    sv: "stream_value X (streams p ! istream p) = Inr (attrs, data)"
    and p1: "p1 = p\<lparr>istream := istream p + 1, fp := Some (data, 0)\<rparr>"
    by (auto simp: fillfp_def ebind_def split: sum.splits)
  have "drop (istream p) (streams p) = streams p ! istream p # drop (Suc (istream p)) (streams p)"
    using lt by (simp add: Cons_nth_drop_Suc)
  then show ?thesis using None p1 sv by (simp add: unread_def stream_len_def)
qed

lemma fillbuf_loop_unread:
  "fillbuf_loop X p = Inr p' \<Longrightarrow> buf p' \<noteq> [] \<and> length (buf p') + unread X p' \<le> unread X p"
proof (induction X p rule: fillbuf_loop.induct)
  case (1 X p)
  from "1.prems" obtain p1 where f: "fillfp X p = Inr p1"
    by (cases "fillfp X p") (simp_all add: fillbuf_loop.simps[of X p])
  from fillfp_unread[OF f] obtain d pos where fp1: "fp p1 = Some (d, pos)"
    and u1: "unread X p1 = unread X p" by (cases "fp p1") auto
  define b where "b = take (BUFSIZ X) (drop pos d)"
  define p2 where "p2 = p1\<lparr>bufpos := pos, buf := b, fp := Some (d, pos + length b)\<rparr>"
  have u2: "length b + unread X p2 = unread X p1"
    using fp1 by (auto simp: unread_def p2_def b_def)
  have "fillbuf_loop X p = (if b \<noteq> [] then Inr p2 else fillbuf_loop X (p2\<lparr>fp := None\<rparr>))"
    unfolding b_def p2_def
    by (subst fillbuf_loop.simps) (simp only: f fp1 sum.case option.case prod.case Let_def)
  with "1.prems" have e: "(if b \<noteq> [] then Inr p2 else fillbuf_loop X (p2\<lparr>fp := None\<rparr>)) = Inr p'"
    by simp
  show ?case
  proof (cases "b = []")
    case False
    with e have "p' = p2" by simp
    with False u2 u1 show ?thesis by (simp add: p2_def)
  next
    case True
    with e have r: "fillbuf_loop X (p2\<lparr>fp := None\<rparr>) = Inr p'" by simp
    have "buf p' \<noteq> [] \<and> length (buf p') + unread X p' \<le> unread X (p2\<lparr>fp := None\<rparr>)"
      using "1.IH"[OF f fp1 refl b_def p2_def] True r by simp
    moreover have "unread X (p2\<lparr>fp := None\<rparr>) \<le> unread X p2"
      by (simp add: unread_def p2_def)
    ultimately show ?thesis using u2 u1 by simp
  qed
qed

lemma fillbuf_remaining:
  assumes "fillbuf X p = Inr p1"
  shows "charpos p1 < length (buf p1) \<and> remaining X p1 \<le> remaining X p"
proof (cases "charpos p < length (buf p)")
  case True
  with assms show ?thesis by (simp add: fillbuf_def)
next
  case False
  with assms obtain p' where l: "fillbuf_loop X p = Inr p'" and p1: "p1 = p'\<lparr>charpos := 0\<rparr>"
    by (auto simp: fillbuf_def ebind_def split: sum.splits)
  from fillbuf_loop_unread[OF l] p1 False show ?thesis
    by (simp add: remaining_def unread_def)
qed

lemma remaining_advance:
  "charpos p < k \<Longrightarrow> k \<le> length (buf p) \<Longrightarrow> remaining X (p\<lparr>charpos := k\<rparr>) < remaining X p"
  by (simp add: remaining_def unread_def)

lemma index_from_Some:
  "index_from b c start = Some j \<Longrightarrow> start \<le> j \<and> j < length b \<and> b ! j = c"
  by (auto simp: index_from_def find_Some_iff)

text \<open>
  The loop of \<^verbatim>\<open>get_inline_data\<close>: \<open>i\<close> bytes of \<open>target\<close> have been matched;
  with \<open>i = 0\<close> the scanner jumps to the next occurrence of the first byte of
  \<open>target\<close>; the loop ends when the whole of \<open>target\<close> and one byte of white space
  after it have been read.
\<close>

function get_inline_loop ::
  "externals \<Rightarrow> string \<Rightarrow> PDFContentParser \<Rightarrow> nat \<Rightarrow> string
     \<Rightarrow> error + PDFContentParser \<times> string" where
  "get_inline_loop X target p i data =
     (if i \<le> length target then
        (case fillbuf X p of
           Inl e \<Rightarrow> Inl e
         | Inr p1 \<Rightarrow>
             if i \<noteq> 0 then
               (if charpos p1 < length (buf p1) then
                  (let c = buf p1 ! charpos p1;
                       data1 = data @ [c];
                       p2 = p1\<lparr>charpos := charpos p1 + 1\<rparr>
                   in if length target \<le> i \<and> isspace c \<or> i < length target \<and> c = target ! i
                      then get_inline_loop X target p2 (i + 1) data1
                      else get_inline_loop X target p2 0 data1)
                else Inl IndexError)
             else
               (case target of
                  [] \<Rightarrow> Inl IndexError
                | t0 # ts \<Rightarrow>
                    (case index_from (buf p1) t0 (charpos p1) of
                       Some j \<Rightarrow>
                         get_inline_loop X target (p1\<lparr>charpos := j + 1\<rparr>) 1
                           (data @ take (j + 1 - charpos p1) (drop (charpos p1) (buf p1)))
                     | None \<Rightarrow>
                         get_inline_loop X target (p1\<lparr>charpos := length (buf p1)\<rparr>) 0
                           (data @ drop (charpos p1) (buf p1)))))
      else Inr (p, data))"
  by pat_completeness auto
termination
proof (relation "measure (\<lambda>(X, target, p, i, data). remaining X p)"; clarsimp)
  fix X :: externals and p p1 :: PDFContentParser
  assume f: "fillbuf X p = Inr p1"
  note r = fillbuf_remaining[OF f]
  have adv: "remaining X (p1\<lparr>charpos := k\<rparr>) < remaining X p"
    if "charpos p1 < k" "k \<le> length (buf p1)" for k
    using remaining_advance[OF that, of X] r by simp
  {
    assume "charpos p1 < length (buf p1)"
    then show "remaining X (p1\<lparr>charpos := Suc (charpos p1)\<rparr>) < remaining X p"
      by (intro adv) simp_all
    then show "remaining X (p1\<lparr>charpos := Suc (charpos p1)\<rparr>) < remaining X p" .
  }
  {
    fix t0 :: char and j
    assume "index_from (buf p1) t0 (charpos p1) = Some j"
    from index_from_Some[OF this]
    show "remaining X (p1\<lparr>charpos := Suc j\<rparr>) < remaining X p"
      by (intro adv) simp_all
  }
  {
    from r show "remaining X (p1\<lparr>charpos := length (buf p1)\<rparr>) < remaining X p"
      by (intro adv) simp_all
  }
qed

declare get_inline_loop.simps [simp del]

text \<open>
  \<^verbatim>\<open>re.sub(rb"(\x0d\x0a|[\x0d\x0a])$", b"", data)\<close>, where \<^verbatim>\<open>$\<close> matches at the end
  and before a line feed that ends the data.
\<close>

definition strip_eol :: "string \<Rightarrow> string" where
  "strip_eol d =
     (let n = length d in
      if 3 \<le> n \<and> drop (n - 3) d = [CHR 0x0D, CHR 0x0A, CHR 0x0A] then take (n - 3) d
      else if 2 \<le> n \<and> (drop (n - 2) d = [CHR 0x0D, CHR 0x0A]
                          \<or> drop (n - 2) d = [CHR 0x0A, CHR 0x0A]) then take (n - 2) d
      else if 1 \<le> n \<and> (drop (n - 1) d = [CHR 0x0D] \<or> drop (n - 1) d = [CHR 0x0A])
        then take (n - 1) d
      else d)"

definition get_inline_data ::
  "externals \<Rightarrow> nat \<Rightarrow> string \<Rightarrow> PDFContentParser
     \<Rightarrow> error + PDFContentParser \<times> nat \<times> string" where
  "get_inline_data X pos target p =
     ebind (seek X pos p) (\<lambda>p0.
     ebind (get_inline_loop X target p0 0 []) (\<lambda>(p1, data).
       Inr (p1, pos, strip_eol (take (length data - (length target + 1)) data))))"

text \<open>
  Modelled from the spec: \<^verbatim>\<open>start_type\<close>, \<^verbatim>\<open>end_type\<close> and \<^verbatim>\<open>push\<close> of
  \<^verbatim>\<open>PSStackParser\<close>, \<^verbatim>\<open>choplist\<close> (module \<^verbatim>\<open>utils\<close>) and
  \<^verbatim>\<open>LITERALS_ASCII85_DECODE\<close> (module \<^verbatim>\<open>pdftypes\<close>) are not among the sources. On
  \<^verbatim>\<open>BI\<close> the tokenizer enters the inline-dictionary mode and accumulates operands
  until \<^verbatim>\<open>ID\<close>, which takes them in pairs; the ASCII85 filter is named \<^verbatim>\<open>/A85\<close> or
  \<^verbatim>\<open>/ASCII85Decode\<close> (section 4.2). \<open>parser_push\<close> is the \<^verbatim>\<open>push\<close> of the parser,
  \<open>choplist2\<close> is \<^verbatim>\<open>choplist(2, objs)\<close>, and \<open>entry_obj\<close> is the object of an entry.
\<close>

definition start_type :: "nat \<Rightarrow> string \<Rightarrow> PDFContentParser \<Rightarrow> PDFContentParser" where
  "start_type pos t p =
     p\<lparr>contexts := contexts p @ [(pos, curtype p, curstack p)],
       curtype := Some t, curstack := []\<rparr>"

fun entry_obj :: "entry \<Rightarrow> psobj" where
  "entry_obj (Tuple2 pos x) = x"
| "entry_obj (Tuple3 pos x i) = x"

definition end_type ::
  "string \<Rightarrow> PDFContentParser \<Rightarrow> error + PDFContentParser \<times> nat \<times> psobj list" where
  "end_type t p =
     (if curtype p \<noteq> Some t then Inl PSTypeError
      else
        (let objs = map entry_obj (curstack p) in
         case contexts p of
           [] \<Rightarrow> Inl IndexError
         | c # cs \<Rightarrow>
             (case last (contexts p) of (pos, ct, st) \<Rightarrow>
                Inr (p\<lparr>contexts := butlast (contexts p), curtype := ct, curstack := st\<rparr>,
                     pos, objs))))"

definition parser_push :: "entry \<Rightarrow> PDFContentParser \<Rightarrow> PDFContentParser" where
  "parser_push e p = p\<lparr>curstack := curstack p @ [e]\<rparr>"

fun choplist2 :: "'a list \<Rightarrow> ('a \<times> 'a) list" where
  "choplist2 (a # b # r) = (a, b) # choplist2 r"
| "choplist2 r = []"

text \<open>
  \<^verbatim>\<open>literal_name\<close> on what the parser holds, and the dictionary
  \<^verbatim>\<open>{literal_name(k): resolve1(v) for (k, v) in choplist(2, objs)}\<close>.
\<close>

definition ps_literal_name :: "externals \<Rightarrow> psobj \<Rightarrow> error + string" where
  "ps_literal_name X k =
     (case k of Obj x \<Rightarrow> literal_name X x
      | _ \<Rightarrow> if STRICT X then Inl PSTypeError else Inr (py_str X k))"

fun inline_dict ::
  "externals \<Rightarrow> (psobj \<times> psobj) list \<Rightarrow> (string \<times> psobj) list
     \<Rightarrow> error + (string \<times> psobj) list" where
  "inline_dict X [] d = Inr d"
| "inline_dict X ((k, v) # r) d =
     ebind (ps_literal_name X k) (\<lambda>n. inline_dict X r (dict_setitem d n v))"

definition LITERALS_ASCII85_DECODE :: "string list" where
  "LITERALS_ASCII85_DECODE = [''ASCII85Decode'', ''A85'']"

text \<open>
  \<^verbatim>\<open>filter[0]\<close>, after a literal has been wrapped in a list; membership in
  \<^verbatim>\<open>LITERALS_ASCII85_DECODE\<close>; the choice of the end marker, \<^verbatim>\<open>EI\<close> when
  \<^verbatim>\<open>d.get("F")\<close> is \<^verbatim>\<open>None\<close>.
\<close>

fun first_filter :: "psobj \<Rightarrow> error + psobj" where
  "first_filter (Obj (OLit n)) = Inr (Obj (OLit n))"
| "first_filter (Obj (OList [])) = Inl IndexError"
| "first_filter (Obj (OList (x # xs))) = Inr (Obj x)"
| "first_filter (Obj (OTuple [])) = Inl IndexError"
| "first_filter (Obj (OTuple (x # xs))) = Inr (Obj x)"
| "first_filter (Obj (OStr [])) = Inl IndexError"
| "first_filter (Obj (OStr (c # cs))) = Inr (Obj (ONum (real (of_char c :: nat))))"
| "first_filter (Obj (ODict d)) = Inl KeyError"
| "first_filter (Obj (OStream a d)) = Inl KeyError"
| "first_filter (Stream a d) = Inl KeyError"
| "first_filter x = Inl TypeError"

fun is_ascii85 :: "psobj \<Rightarrow> bool" where
  "is_ascii85 (Obj (OLit n)) = (n \<in> set LITERALS_ASCII85_DECODE)"
| "is_ascii85 x = False"

definition inline_eos :: "psobj option \<Rightarrow> error + string" where
  "inline_eos flt =
     (case flt of
        None \<Rightarrow> Inr ''EI''
      | Some f \<Rightarrow>
          if f = Obj ONull then Inr ''EI''
          else ebind (first_filter f) (\<lambda>f0. Inr (if is_ascii85 f0 then ''~>'' else ''EI'')))"

text \<open>
  \<^verbatim>\<open>except PSTypeError: if settings.STRICT: raise\<close>. In lenient mode the parser goes on
  in the state it has when the exception is raised; the two \<^verbatim>\<open>PSTypeError\<close> that can
  be raised in lenient mode are those of \<^verbatim>\<open>end_type\<close> and of the test of the number
  of operands.
\<close>

definition except_PSTypeError ::
  "externals \<Rightarrow> error \<Rightarrow> PDFContentParser \<Rightarrow> error + PDFContentParser" where
  "except_PSTypeError X e p =
     (if e = PSTypeError then (if STRICT X then Inl PSTypeError else Inr p) else Inl e)"

definition do_keyword ::
  "externals \<Rightarrow> nat \<Rightarrow> string \<Rightarrow> nat option \<Rightarrow> PDFContentParser
     \<Rightarrow> error + PDFContentParser" where
  "do_keyword X pos token instruction_index p =
     (if token = ''BI'' then Inr (start_type pos ''inline'' p)
      else if token = ''ID'' then
        (case end_type ''inline'' p of
           Inl e \<Rightarrow> except_PSTypeError X e p
         | Inr (p1, pos0, objs) \<Rightarrow>
             if length objs mod 2 \<noteq> 0 then except_PSTypeError X PSTypeError p1
             else
               ebind (inline_dict X (choplist2 objs) []) (\<lambda>d.
               ebind (inline_eos (map_of d ''F'')) (\<lambda>eos.
               ebind (get_inline_data X (pos + length ''ID '') eos p1) (\<lambda>(p2, pos1, data).
                 let data1 = (if eos \<noteq> ''EI'' then data @ eos else data);
                     p3 = parser_push (Tuple2 pos1 (Stream d data1)) p2
                 in Inr (if eos = ''EI'' then parser_push (Tuple2 pos1 (Kwd ''EI'')) p3
                         else p3)))))
      else Inr (parser_push (Tuple3 pos (Kwd token) instruction_index) p))"

text \<open>
  What the scan has read so far, in terms of \<open>target\<close>: a prefix of \<open>i\<close> bytes of it,
  or all of it and one byte of white space.
\<close>

definition scanned :: "string \<Rightarrow> nat \<Rightarrow> string \<Rightarrow> bool" where
  "scanned target i data =
     (i \<le> length target \<and> (\<exists>pre. data = pre @ take i target)
      \<or> i = length target + 1 \<and> (\<exists>pre c. isspace c \<and> data = pre @ target @ [c]))"

text \<open>
  \<open>graft a b\<close> is \<open>b\<close> with the device and the resource maps of \<open>a\<close>: the attributes
  that \<^verbatim>\<open>init_resources\<close> reads or writes.
\<close>

definition graft :: "PDFPageInterpreter \<Rightarrow> PDFPageInterpreter \<Rightarrow> PDFPageInterpreter" where
  "graft a b = b\<lparr>device := device a, resources := resources a, fontmap := fontmap a,
                 xobjmap := xobjmap a, csmap := csmap a\<rparr>"

text \<open>Both current color spaces are set (neither is \<^verbatim>\<open>None\<close>).\<close>

definition cs_set :: "PDFPageInterpreter \<Rightarrow> bool" where
  "cs_set s = (scs s \<noteq> None \<and> ncs s \<noteq> None)"

subsection \<open>Example values\<close>

text \<open>
  A parser that knows one content stream, \<^verbatim>\<open>1 1 m 2 2 l S\<close>, and a table of three
  predefined color spaces; an interpreter as \<^verbatim>\<open>render_contents\<close> leaves it on an empty
  page; a Form XObject with that content stream, and a page that names it \<^verbatim>\<open>X1\<close>; a
  path under construction; the text state after \<^verbatim>\<open>/F1 12 Tf 14 TL\<close>; the parser
  on \<^verbatim>\<open>BI /F /A85 ID abc~> EI\<close>, on \<^verbatim>\<open>BI /W 1 ID ab EI Q\<close> and on
  \<^verbatim>\<open>BI /F [/Fl /A85] ID x~> EI Q\<close>, each at its \<^verbatim>\<open>ID\<close>.
\<close>

definition example_nextobjects :: "obj list \<Rightarrow> token list" where
  "example_nextobjects strms =
     (case strms of
        [OStream attrs data] \<Rightarrow>
          if data = ''1 1 m 2 2 l S'' then
            [Operand (ONum 1), Operand (ONum 1), Keyword ''m'' (Some 0),
             Operand (ONum 2), Operand (ONum 2), Keyword ''l'' (Some 1),
             Keyword ''S'' (Some 2)]
          else []
      | _ \<Rightarrow> [])"

definition example_externals :: "bool \<Rightarrow> externals" where
  "example_externals strict =
     \<lparr>STRICT = strict,
      PREDEFINED_COLORSPACE =
        [(''DeviceGray'', PDFColorSpace ''DeviceGray'' (ONum 1)),
         (''DeviceRGB'', PDFColorSpace ''DeviceRGB'' (ONum 3)),
         (''DeviceCMYK'', PDFColorSpace ''DeviceCMYK'' (ONum 4))],
      nextobjects = example_nextobjects,
      get_font = (\<lambda>spec. Inr (PDFFont spec)),
      py_str = (\<lambda>x. ''?''),
      py_id = (\<lambda>x. ''id''),
      BUFSIZ = 4096\<rparr>"

definition example_interp :: PDFPageInterpreter where
  "example_interp =
     \<lparr>device = [], resources = ODict [], fontmap = [], xobjmap = [],
      csmap = PREDEFINED_COLORSPACE (example_externals False),
      gstack = [], ctm = MATRIX_IDENTITY, textstate = PDFTextState_init,
      graphicstate = PDFGraphicState_init, curpath = [], argstack = [],
      scs = Some (PDFColorSpace ''DeviceGray'' (ONum 1)),
      ncs = Some (PDFColorSpace ''DeviceGray'' (ONum 1))\<rparr>"

definition example_form :: obj where
  "example_form =
     OStream [(''Subtype'', OLit ''Form''),
              (''BBox'', OList [ONum 0, ONum 0, ONum 100, ONum 100]),
              (''Matrix'', OList [ONum 2, ONum 0, ONum 0, ONum 2, ONum 10, ONum 20])]
       ''1 1 m 2 2 l S''"

definition example_parent :: PDFPageInterpreter where
  "example_parent = example_interp\<lparr>xobjmap := [(''X1'', example_form)]\<rparr>"

definition example_inline :: PDFContentParser where
  "example_inline =
     \<lparr>streams = [OStream [] ''BI /F /A85 ID abc~> EI''], istream = 1,
      fp = Some (''BI /F /A85 ID abc~> EI'', 22), bufpos = 0,
      buf = ''BI /F /A85 ID abc~> EI'', charpos = 13,
      contexts = [(0, None, [])], curtype = Some ''inline'',
      curstack = [Tuple2 3 (Obj (OLit ''F'')), Tuple2 6 (Obj (OLit ''A85''))],
      results = []\<rparr>"

definition example_inline_EI :: PDFContentParser where
  "example_inline_EI =
     \<lparr>streams = [OStream [] ''BI /W 1 ID ab EI Q''], istream = 1,
      fp = Some (''BI /W 1 ID ab EI Q'', 18), bufpos = 0,
      buf = ''BI /W 1 ID ab EI Q'', charpos = 10,
      contexts = [(0, None, [])], curtype = Some ''inline'',
      curstack = [Tuple2 3 (Obj (OLit ''W'')), Tuple2 6 (Obj (ONum 1))],
      results = []\<rparr>"

definition example_inline_array :: PDFContentParser where
  "example_inline_array =
     \<lparr>streams = [OStream [] ''BI /F [/Fl /A85] ID x~> EI Q''], istream = 1,
      fp = Some (''BI /F [/Fl /A85] ID x~> EI Q'', 28), bufpos = 0,
      buf = ''BI /F [/Fl /A85] ID x~> EI Q'', charpos = 19,
      contexts = [(0, None, [])], curtype = Some ''inline'',
      curstack = [Tuple2 3 (Obj (OLit ''F'')),
                  Tuple2 6 (Obj (OList [OLit ''Fl'', OLit ''A85'']))],
      results = []\<rparr>"

definition example_path :: PDFPageInterpreter where
  "example_path =
     example_interp\<lparr>curpath := [Move (ONum 0) (ONum 0), Line (ONum 1) (ONum 1)]\<rparr>"

definition example_text :: PDFPageInterpreter where
  "example_text =
     example_interp\<lparr>textstate :=
       PDFTextState_init\<lparr>font := Some (PDFFont (ODict [])), fontsize := ONum 12,
                          leading := - 14\<rparr>\<rparr>"

section \<open>Properties\<close>

subsection \<open>Basic facts\<close>

lemmas dispatch_simps =
  exec_keyword_def method_name_def replace_def methods_def with_index_def
  args0_def args1_def args2_def args3_def args4_def args6_def args1_index_def
  args3_index_def pop_def push_def ebind_def device_call_def append_path_def
  index_obj_def

lemmas example_simps =
  example_interp_def example_path_def example_text_def example_externals_def
  PDFTextState_init_def PDFGraphicState_init_def reset_def

lemmas args_defs = args0_def args1_def args2_def args3_def args4_def args6_def args1_index_def args3_index_def

lemmas handler_defs = do_cm_def do_w_def do_J_def do_j_def do_M_def do_d_def do_ri_def do_i_def do_gs_def
  do_m_def do_l_def do_c_def do_v_def do_y_def do_h_def do_re_def do_S_def do_s_def do_f_def do_F_def do_f_a_def
  do_B_def do_B_a_def do_b_def do_b_a_def do_n_def do_W_def do_W_a_def do_CS_def do_cs_def do_G_def do_g_def
  do_RG_def do_rg_def do_K_def do_k_def do_SCN_def do_scn_def do_SC_def do_sc_def do_sh_def do_BT_def do_ET_def
  do_BX_def do_EX_def do_MP_def do_DP_def do_BMC_def do_BDC_def do_EMC_def do_Tc_def do_Tw_def do_Tz_def do_TL_def
  do_Tf_def do_Tr_def do_Ts_def do_Td_def do_TD_def do_Tm_def do_T_a_def do_TJ_def do_Tj_def do__q_def do__w_def
  do_BI_def do_ID_def do_EI_def do_Do_def set_scolor_def set_ncolor_def

lemma methods_gstack:
  "(m, c, f) \<in> set (methods X rc) \<Longrightarrow> m \<noteq> ''do_q'' \<Longrightarrow> m \<noteq> ''do_Q'' \<Longrightarrow> f args s = Inr s' \<Longrightarrow> gstack s' = gstack s"
  apply (simp add: methods_def)
  apply (elim disjE conjE)
  apply (auto simp add: args_defs handler_defs ebind_def device_call_def append_path_def pop_def Let_def dup_def
         split: list.splits sum.splits option.splits if_splits prod.splits obj.splits)
  done

lemma replace_Nil: "r \<noteq> [] \<Longrightarrow> (replace c r str = []) = (str = [])"
  by (cases str) (auto simp: replace_def)

lemma replace_single:
  "length r = 2 \<Longrightarrow> c \<noteq> q \<Longrightarrow> (replace c r str = [q]) = (str = [q])"
proof (cases str)
  case Nil then show ?thesis by (simp add: replace_def)
next
  case (Cons x xs)
  assume r: "length r = 2" and c: "c \<noteq> q"
  have rn: "r \<noteq> []" using r by auto
  have e: "replace c r (x # xs) = (if x = c then r else [x]) @ replace c r xs"
    by (simp add: replace_def)
  show ?thesis
  proof (cases "x = c")
    case True
    have "length (replace c r (x # xs)) \<ge> 2" using e True r by simp
    then have "replace c r (x # xs) \<noteq> [q]" by auto
    with True c Cons show ?thesis by auto
  next
    case False
    then show ?thesis using e Cons replace_Nil[OF rn, of c xs] by auto
  qed
qed

lemma method_name_eq:
  assumes "q \<noteq> CHR 0x27" "q \<noteq> CHR 0x22" "q \<noteq> CHR ''*''"
  shows "(method_name nm = ''do_'' @ [q]) = (nm = [q])"
  using assms by (simp add: method_name_def replace_single)

lemma method_name_q: "(method_name nm = ''do_q'') = (nm = ''q'')"
  using method_name_eq[of "CHR ''q''" nm] by simp

lemma method_name_Q: "(method_name nm = ''do_Q'') = (nm = ''Q'')"
  using method_name_eq[of "CHR ''Q''" nm] by simp

lemma pop_argstack: "snd (pop n s) = s\<lparr>argstack := argstack (snd (pop n s))\<rparr>"
  by (simp add: pop_def)

lemma exec_keyword_found:
  assumes m: "map_of (methods X rc) (method_name nm) = Some (c, f)"
    and e: "exec_keyword X rc nm i s = Inr s'"
  shows "(\<exists>a. s' = s\<lparr>argstack := a\<rparr>) \<or> (\<exists>args a. f args (s\<lparr>argstack := a\<rparr>) = Inr s')"
proof -
  define n where "n = (if method_name nm \<in> set with_index then c - 1 - 1 else c - 1)"
  obtain args s1 where p: "pop (int n) s = (args, s1)" by (cases "pop (int n) s")
  define a where "a = argstack s1"
  have a: "s1 = s\<lparr>argstack := a\<rparr>" using pop_argstack[of "int n" s] p by (simp add: a_def)
  have s: "s = s\<lparr>argstack := argstack s\<rparr>" by simp
  have e': "(if n \<noteq> 0 then
              (if length args = n then
                (if method_name nm \<in> set with_index then f (args @ [index_obj i]) s1 else f args s1)
               else Inr s1)
            else f [] s) = Inr s'"
    using e unfolding exec_keyword_def Let_def m option.case prod.case n_def[symmetric] p .
  show ?thesis
  proof (cases "n \<noteq> 0")
    case False
    with e' have "f [] (s\<lparr>argstack := argstack s\<rparr>) = Inr s'" by simp
    then show ?thesis by blast
  next
    case True
    show ?thesis
    proof (cases "length args = n")
      case False
      with True e' a have "s' = s\<lparr>argstack := a\<rparr>" by simp
      then show ?thesis by blast
    next
      case len: True
      show ?thesis
      proof (cases "method_name nm \<in> set with_index")
        case True
        with \<open>n \<noteq> 0\<close> len e' a have "f (args @ [index_obj i]) (s\<lparr>argstack := a\<rparr>) = Inr s'" by simp
        then show ?thesis by blast
      next
        case False
        with \<open>n \<noteq> 0\<close> len e' a have "f args (s\<lparr>argstack := a\<rparr>) = Inr s'" by simp
        then show ?thesis by blast
      qed
    qed
  qed
qed

lemma exec_keyword_gstack:
  assumes "exec_keyword X rc nm i s = Inr s'" "nm \<noteq> ''q''" "nm \<noteq> ''Q''"
  shows "gstack s' = gstack s"
proof (cases "map_of (methods X rc) (method_name nm)")
  case None
  with assms show ?thesis by (simp add: exec_keyword_def split: if_splits)
next
  case (Some cf)
  obtain c f where cf: "cf = (c, f)" by (cases cf)
  have mem: "(method_name nm, c, f) \<in> set (methods X rc)"
    using Some cf by (auto dest: map_of_SomeD)
  have nq: "method_name nm \<noteq> ''do_q''" "method_name nm \<noteq> ''do_Q''"
    using assms(2,3) by (simp_all add: method_name_q method_name_Q)
  from exec_keyword_found[OF Some[unfolded cf] assms(1)] show ?thesis
  proof (elim disjE exE)
    fix a assume "s' = s\<lparr>argstack := a\<rparr>" then show ?thesis by simp
  next
    fix args a assume "f args (s\<lparr>argstack := a\<rparr>) = Inr s'"
    from methods_gstack[OF mem nq this] show ?thesis by simp
  qed
qed

lemma exec_q: "exec_keyword X rc ''q'' i s = Inr (s\<lparr>gstack := gstack s @ [(ctm s, textstate s, graphicstate s)]\<rparr>)"
  by (simp add: exec_keyword_def method_name_def replace_def methods_def with_index_def args0_def do_q_def
      get_current_state_def PDFTextState_copy_def PDFGraphicState_copy_def)

lemma exec_Q: "gstack s \<noteq> [] \<Longrightarrow> exec_keyword X rc ''Q'' i s =
   Inr (s\<lparr>gstack := butlast (gstack s), ctm := fst (last (gstack s)), textstate := fst (snd (last (gstack s))),
     graphicstate := snd (snd (last (gstack s))), device := device s @ [set_ctm (fst (last (gstack s)))]\<rparr>)"
  by (simp add: exec_keyword_def method_name_def replace_def methods_def with_index_def args0_def do_Q_def
      set_current_state_def device_call_def split: prod.splits)

lemma execute_tokens_append:
  "execute_tokens X rc (ts @ us) s = ebind (execute_tokens X rc ts s) (execute_tokens X rc us)"
proof (induction ts arbitrary: s)
  case Nil show ?case by (simp add: ebind_def)
next
  case (Cons t ts)
  show ?case
  proof (cases t)
    case (Operand x) with Cons show ?thesis by simp
  next
    case (Keyword nm i)
    with Cons show ?thesis by (cases "exec_keyword X rc nm i s") (simp_all add: ebind_def)
  qed
qed

lemma nested_gstack:
  "nested d ts \<Longrightarrow> execute_tokens X rc ts s = Inr s' \<Longrightarrow> gstack s = G @ E \<Longrightarrow> length E = d \<Longrightarrow> gstack s' = G"
proof (induction ts arbitrary: s d E)
  case Nil then show ?case by simp
next
  case (Cons t ts)
  show ?case
  proof (cases t)
    case (Operand x)
    with Cons.prems have "nested d ts" "execute_tokens X rc ts (push x s) = Inr s'" "gstack (push x s) = G @ E"
      by (simp_all add: push_def)
    from Cons.IH[OF this Cons.prems(4)] show ?thesis .
  next
    case (Keyword nm i)
    from Cons.prems(2) Keyword obtain s1 where s1: "exec_keyword X rc nm i s = Inr s1" and rest: "execute_tokens X rc ts s1 = Inr s'"
      by (cases "exec_keyword X rc nm i s") (simp_all add: ebind_def)
    consider (q) "nm = ''q''" | (Q) "nm = ''Q''" | (other) "nm \<noteq> ''q''" "nm \<noteq> ''Q''" by blast
    then show ?thesis
    proof cases
      case q
      with s1 have "s1 = s\<lparr>gstack := gstack s @ [(ctm s, textstate s, graphicstate s)]\<rparr>"
        by (simp add: exec_q)
      then have g: "gstack s1 = G @ (E @ [(ctm s, textstate s, graphicstate s)])"
        using Cons.prems(3) by simp
      have n: "nested (Suc d) ts" using Cons.prems(1) Keyword q by simp
      show ?thesis by (rule Cons.IH[OF n rest g]) (simp add: Cons.prems(4))
    next
      case Q
      with Cons.prems(1) Keyword have d: "0 < d" and n: "nested (d - 1) ts" by simp_all
      with Cons.prems(4) have E: "E \<noteq> []" by auto
      then have ne: "gstack s \<noteq> []" using Cons.prems(3) by simp
      from s1 Q ne have "gstack s1 = butlast (gstack s)"
        by (auto simp add: exec_Q)
      then have g: "gstack s1 = G @ butlast E"
        using E Cons.prems(3) by (simp add: butlast_append)
      show ?thesis by (rule Cons.IH[OF n rest g]) (simp add: Cons.prems(4))
    next
      case other
      have g: "gstack s1 = G @ E" using exec_keyword_gstack[OF s1 other] Cons.prems(3) by simp
      have n: "nested d ts" using Cons.prems(1) Keyword other by simp
      show ?thesis by (rule Cons.IH[OF n rest g Cons.prems(4)])
    qed
  qed
qed

lemma PDFTextState_copy_id: "PDFTextState_copy t = t"
  by (simp add: PDFTextState_copy_def)

lemma PDFGraphicState_copy_id: "PDFGraphicState_copy g = g"
  by (simp add: PDFGraphicState_copy_def)

lemma pop_short:
  "0 < n \<Longrightarrow> length (argstack s) < n \<Longrightarrow> pop (int n) s = (argstack s, s\<lparr>argstack := []\<rparr>)"
  by (simp add: pop_def)

lemma example_page_rendered:
  "render_contents (example_externals False) (render_depth 0 (example_externals False))
     (ODict []) (OList []) MATRIX_IDENTITY example_interp =
   Inr (example_interp\<lparr>device := [set_ctm MATRIX_IDENTITY]\<rparr>)"
  by (simp add: render_contents_def init_resources_def init_state_def example_interp_def
      example_externals_def ebind_def list_value_def execute_def example_nextobjects_def
      device_call_def)

subsection \<open>The show-text operators\<close>

text \<open>
  Claim C1. The \<^verbatim>\<open>"\<close> operator is \<^verbatim>\<open>Tw aw\<close>, \<^verbatim>\<open>Tc ac\<close>, then \<^verbatim>\<open>'\<close> on the string,
  so it advances the text matrix by the leading before \<^verbatim>\<open>render_string\<close>. The code
  does not: \<^verbatim>\<open>do__w\<close> calls \<^verbatim>\<open>do_TJ\<close> where its docstring ("move to next line")
  and \<^verbatim>\<open>do__q\<close> call \<^verbatim>\<open>do_T_a\<close> first. With the leading set by \<^verbatim>\<open>14 TL\<close>,
  \<^verbatim>\<open>do__w\<close> passes the text matrix \<open>(1,0,0,1,0,0)\<close> to the device, and the sequence
  \<^verbatim>\<open>Tw\<close>, \<^verbatim>\<open>Tc\<close>, \<^verbatim>\<open>'\<close> passes \<open>(1,0,0,1,0,-14)\<close>. Moreover the dispatcher takes four
  operands for \<^verbatim>\<open>"\<close> (its list of methods with an instruction index names
  \<^verbatim>\<open>do_T_w\<close>, not \<^verbatim>\<open>do__w\<close>), so \<^verbatim>\<open>1 2 (Hi) "\<close> is dropped with its operands.
\<close>

theorem C1_double_quote_keeps_text_matrix:
  "do__w (example_externals False) (ONum 1) (ONum 2) (OStr ''Hi'') ONull example_text =
     Inr (example_text
       \<lparr>textstate := (textstate example_text)\<lparr>wordspace := ONum 1, charspace := ONum 2\<rparr>,
        device :=
          [render_string
             ((textstate example_text)\<lparr>wordspace := ONum 1, charspace := ONum 2\<rparr>)
             (OList [OStr ''Hi'']) (PDFColorSpace ''DeviceGray'' (ONum 1))
             PDFGraphicState_init ONull]\<rparr>)
   \<and> matrix (textstate example_text) = (ONum 1, ONum 0, ONum 0, ONum 1, ONum 0, ONum 0)
   \<and> ebind (do_Tw (ONum 1) example_text) (\<lambda>s1. ebind (do_Tc (ONum 2) s1)
        (do__q (example_externals False) (OStr ''Hi'') ONull)) =
     Inr (example_text
       \<lparr>textstate := (textstate example_text)
          \<lparr>wordspace := ONum 1, charspace := ONum 2,
           matrix := (ONum 1, ONum 0, ONum 0, ONum 1, ONum 0, ONum (- 14))\<rparr>,
        device :=
          [render_string
             ((textstate example_text)
                \<lparr>wordspace := ONum 1, charspace := ONum 2,
                 matrix := (ONum 1, ONum 0, ONum 0, ONum 1, ONum 0, ONum (- 14))\<rparr>)
             (OList [OStr ''Hi'']) (PDFColorSpace ''DeviceGray'' (ONum 1))
             PDFGraphicState_init ONull]\<rparr>)
   \<and> execute_tokens (example_externals False) (render_depth 0 (example_externals False))
        [Operand (ONum 1), Operand (ONum 2), Operand (OStr ''Hi''),
         Keyword [CHR 0x22] (Some 0)] example_text =
     Inr example_text"
  by (simp add: dispatch_simps example_simps do__w_def do__q_def do_T_a_def lin_def
      do_Tw_def do_Tc_def do_TJ_def PDFGraphicState_copy_id)

subsection \<open>Painting\<close>

text \<open>
  Claim C2, as stated: every paint operator of the table calls \<^verbatim>\<open>paint_path\<close> with the
  flags of its row and then clears \<^verbatim>\<open>curpath\<close>; in particular \<^verbatim>\<open>F\<close> calls it with
  (false, true, false) and \<^verbatim>\<open>n\<close> with (false, false, false). It fails for \<^verbatim>\<open>n\<close> and
  for \<^verbatim>\<open>F\<close>: on a path of two segments, \<^verbatim>\<open>n\<close> empties the path and the device
  receives no call, and \<^verbatim>\<open>F\<close> changes nothing, the path included.
\<close>

theorem C2_counterexample:
  "exec_keyword (example_externals False) (render_depth 0 (example_externals False))
     ''n'' None example_path = Inr (example_path\<lparr>curpath := []\<rparr>)
   \<and> device (example_path\<lparr>curpath := []\<rparr>) = []
   \<and> exec_keyword (example_externals False) (render_depth 0 (example_externals False))
       ''F'' None example_path = Inr example_path
   \<and> device example_path = []
   \<and> curpath example_path = [Move (ONum 0) (ONum 0), Line (ONum 1) (ONum 1)]"
  by (simp add: dispatch_simps do_n_def do_F_def example_path_def example_interp_def)

text \<open>
  Claim C2, amended: the operators \<^verbatim>\<open>S\<close>, \<^verbatim>\<open>s\<close>, \<^verbatim>\<open>f\<close>, \<^verbatim>\<open>f*\<close>, \<^verbatim>\<open>B\<close>, \<^verbatim>\<open>B*\<close>,
  \<^verbatim>\<open>b\<close>, \<^verbatim>\<open>b*\<close> call \<^verbatim>\<open>paint_path\<close> with the graphic state, the flags of their row
  and the current path (closed first for \<^verbatim>\<open>s\<close>, \<^verbatim>\<open>b\<close>, \<^verbatim>\<open>b*\<close>), and then clear
  \<^verbatim>\<open>curpath\<close>; \<^verbatim>\<open>n\<close> clears \<^verbatim>\<open>curpath\<close> and calls nothing.
\<close>

theorem C2_paint_operators:
  "exec_keyword X rc ''S'' i s =
     Inr (s\<lparr>device := device s @ [paint_path (graphicstate s) True False False (curpath s)],
            curpath := []\<rparr>)
   \<and> exec_keyword X rc ''s'' i s =
     Inr (s\<lparr>device := device s @
              [paint_path (graphicstate s) True False False (curpath s @ [Close])],
            curpath := []\<rparr>)
   \<and> exec_keyword X rc ''f'' i s =
     Inr (s\<lparr>device := device s @ [paint_path (graphicstate s) False True False (curpath s)],
            curpath := []\<rparr>)
   \<and> exec_keyword X rc ''f*'' i s =
     Inr (s\<lparr>device := device s @ [paint_path (graphicstate s) False True True (curpath s)],
            curpath := []\<rparr>)
   \<and> exec_keyword X rc ''B'' i s =
     Inr (s\<lparr>device := device s @ [paint_path (graphicstate s) True True False (curpath s)],
            curpath := []\<rparr>)
   \<and> exec_keyword X rc ''B*'' i s =
     Inr (s\<lparr>device := device s @ [paint_path (graphicstate s) True True True (curpath s)],
            curpath := []\<rparr>)
   \<and> exec_keyword X rc ''b'' i s =
     Inr (s\<lparr>device := device s @
              [paint_path (graphicstate s) True True False (curpath s @ [Close])],
            curpath := []\<rparr>)
   \<and> exec_keyword X rc ''b*'' i s =
     Inr (s\<lparr>device := device s @
              [paint_path (graphicstate s) True True True (curpath s @ [Close])],
            curpath := []\<rparr>)
   \<and> exec_keyword X rc ''n'' i s = Inr (s\<lparr>curpath := []\<rparr>)"
  by (simp add: dispatch_simps do_S_def do_s_def do_f_def do_f_a_def do_B_def do_B_a_def
      do_b_def do_b_a_def do_n_def do_h_def)

text \<open>
  Claim C7. For all numbers \<open>x\<close>, \<open>y\<close>, \<open>w\<close>, \<open>h\<close>, executing \<^verbatim>\<open>x y w h re\<close> appends
  exactly \<open>Move(x,y)\<close>, \<open>Line(x+w,y)\<close>, \<open>Line(x+w,y+h)\<close>, \<open>Line(x,y+h)\<close>, \<open>Close\<close> to
  \<^verbatim>\<open>curpath\<close>, and a following \<^verbatim>\<open>S\<close> calls \<^verbatim>\<open>paint_path\<close> with stroke true, fill
  false, evenodd false and that path, after which \<^verbatim>\<open>curpath\<close> is empty.
\<close>

theorem C7_rectangle_then_stroke:
  "execute_tokens X rc
     [Operand (ONum x), Operand (ONum y), Operand (ONum w), Operand (ONum h),
      Keyword ''re'' i] s =
     Inr (s\<lparr>curpath := curpath s @
            [Move (ONum x) (ONum y), Line (ONum (x + w)) (ONum y),
             Line (ONum (x + w)) (ONum (y + h)), Line (ONum x) (ONum (y + h)), Close]\<rparr>)
   \<and> execute_tokens X rc
     [Operand (ONum x), Operand (ONum y), Operand (ONum w), Operand (ONum h),
      Keyword ''re'' i, Keyword ''S'' j] s =
     Inr (s\<lparr>device := device s @
            [paint_path (graphicstate s) True False False
               (curpath s @
                [Move (ONum x) (ONum y), Line (ONum (x + w)) (ONum y),
                 Line (ONum (x + w)) (ONum (y + h)), Line (ONum x) (ONum (y + h)), Close])],
            curpath := []\<rparr>)"
  by (simp add: dispatch_simps do_re_def do_S_def)

subsection \<open>Operands missing\<close>

text \<open>
  Claim C3, as stated: when the stack holds fewer operands than the handler takes, the
  operator is skipped in lenient mode and an error is raised in strict mode. The second
  part fails: in strict mode \<^verbatim>\<open>w\<close> on an empty stack raises nothing and returns the
  interpreter as it was.
\<close>

theorem C3_counterexample:
  "STRICT (example_externals True) \<and> argstack example_interp = []
   \<and> exec_keyword (example_externals True) (render_depth 0 (example_externals True))
       ''w'' None example_interp = Inr example_interp"
  by (simp add: dispatch_simps example_externals_def example_interp_def)

text \<open>
  Claim C3, amended: when the dispatcher finds the handler of an operator, takes \<open>nargs\<close>
  operands for it (\<^verbatim>\<open>co_argcount - 1\<close>, and one less for the methods it lists as taking
  an instruction index) and the stack holds fewer, then in lenient and in strict mode
  alike the handler is not called, no error is raised, and the operands that were on
  the stack are discarded.
\<close>

theorem C3_too_few_operands:
  assumes m: "map_of (methods X rc) (method_name nm) = Some (co_argcount, func)"
    and n: "nargs = (if method_name nm \<in> set with_index
                     then co_argcount - 1 - 1 else co_argcount - 1)"
    and len: "length (argstack s) < nargs"
  shows "exec_keyword X rc nm i s = Inr (s\<lparr>argstack := []\<rparr>)"
proof -
  have pos: "0 < nargs" using len by simp
  have p: "pop (int nargs) s = (argstack s, s\<lparr>argstack := []\<rparr>)"
    using pos len by (rule pop_short)
  show ?thesis
  proof (cases "method_name nm \<in> set with_index")
    case True
    with n have e: "co_argcount - 1 - 1 = nargs" by simp
    show ?thesis
      unfolding exec_keyword_def Let_def m
      by (simp only: option.case prod.case True if_True e p) (use pos len in simp)
  next
    case False
    with n have e: "co_argcount - 1 = nargs" by simp
    show ?thesis
      unfolding exec_keyword_def Let_def m
      by (simp only: option.case prod.case False if_False e p) (use pos len in simp)
  qed
qed

theorem C3_too_few_operands_witness:
  "map_of (methods (example_externals True) (render_depth 0 (example_externals True)))
     (method_name ''cm'') = Some (7, args6 do_cm)
   \<and> (6::nat) = (if method_name ''cm'' \<in> set with_index then 7 - 1 - 1 else 7 - 1)
   \<and> length (argstack (example_interp\<lparr>argstack := [ONum 1, ONum 2]\<rparr>)) < 6
   \<and> exec_keyword (example_externals True) (render_depth 0 (example_externals True))
       ''cm'' None (example_interp\<lparr>argstack := [ONum 1, ONum 2]\<rparr>) = Inr example_interp"
proof -
  let ?X = "example_externals True"
  let ?s = "example_interp\<lparr>argstack := [ONum 1, ONum 2]\<rparr>"
  have m: "map_of (methods ?X (render_depth 0 ?X)) (method_name ''cm'') =
             Some (7, args6 do_cm)"
    by (simp add: methods_def method_name_def replace_def)
  have n: "(6::nat) = (if method_name ''cm'' \<in> set with_index then 7 - 1 - 1 else 7 - 1)"
    by (simp add: method_name_def replace_def with_index_def)
  have len: "length (argstack ?s) < 6" by simp
  have "?s\<lparr>argstack := []\<rparr> = example_interp" by (simp add: example_interp_def)
  with C3_too_few_operands [OF m n len, of None] m n len show ?thesis by simp
qed

subsection \<open>Text positioning\<close>

text \<open>
  Claim C8. \<^verbatim>\<open>Td tx ty\<close> updates the text matrix \<open>(a,b,c,d,e,f)\<close> by
  \<open>e' = tx*a + ty*c + e\<close> and \<open>f' = tx*b + ty*d + f\<close>, and \<^verbatim>\<open>Td tx1 ty1\<close> followed by
  \<^verbatim>\<open>Td tx2 ty2\<close> gives the same text matrix (the same interpreter) as the single
  \<^verbatim>\<open>Td (tx1+tx2) (ty1+ty2)\<close>: from the identity text matrix, and from any text matrix
  of numbers.
\<close>

theorem C8_Td_composition:
  assumes "matrix (textstate s) = (ONum a, ONum b, ONum c, ONum d, ONum e, ONum f)"
  shows "do_Td X (ONum tx) (ONum ty) s =
           Inr (s\<lparr>textstate := (textstate s)
                  \<lparr>matrix := (ONum a, ONum b, ONum c, ONum d,
                              ONum (tx * a + ty * c + e), ONum (tx * b + ty * d + f)),
                   linematrix := (0, 0)\<rparr>\<rparr>)
         \<and> ebind (do_Td X (ONum tx1) (ONum ty1) s) (do_Td X (ONum tx2) (ONum ty2)) =
           do_Td X (ONum (tx1 + tx2)) (ONum (ty1 + ty2)) s"
  using assms by (simp add: do_Td_def lin_def ebind_def algebra_simps)

theorem C8_Td_composition_witness:
  "matrix (textstate example_interp) = (ONum 1, ONum 0, ONum 0, ONum 1, ONum 0, ONum 0)
   \<and> ebind (do_Td (example_externals False) (ONum 72) (ONum 700) example_interp)
        (do_Td (example_externals False) (ONum 0) (ONum 20)) =
     do_Td (example_externals False) (ONum (72 + 0)) (ONum (700 + 20)) example_interp
   \<and> do_Td (example_externals False) (ONum 72) (ONum 720) example_interp =
     Inr (example_interp\<lparr>textstate := (textstate example_interp)
            \<lparr>matrix := (ONum 1, ONum 0, ONum 0, ONum 1, ONum 72, ONum 720),
             linematrix := (0, 0)\<rparr>\<rparr>)"
proof -
  have h: "matrix (textstate example_interp) =
             (ONum 1, ONum 0, ONum 0, ONum 1, ONum 0, ONum 0)"
    by (simp add: example_simps)
  show ?thesis
    using h C8_Td_composition [OF h, of "example_externals False" 72 720 72 700 0 20]
    by simp
qed

subsection \<open>Color spaces\<close>

lemma methods_cs_set:
  "(m, c, f) \<in> set (methods X rc) \<Longrightarrow> f args s = Inr s' \<Longrightarrow> cs_set s \<Longrightarrow> cs_set s'"
  apply (simp add: methods_def)
  apply (elim disjE conjE)
  apply (auto simp add: cs_set_def args_defs handler_defs do_q_def do_Q_def set_current_state_def
         ebind_def device_call_def append_path_def pop_def Let_def dup_def
         split: list.splits sum.splits option.splits if_splits prod.splits obj.splits)
  done

lemma exec_keyword_cs_set:
  assumes e: "exec_keyword X rc nm i s = Inr s'" and c: "cs_set s"
  shows "cs_set s'"
proof (cases "map_of (methods X rc) (method_name nm)")
  case None
  with e c show ?thesis by (simp add: exec_keyword_def split: if_splits)
next
  case (Some cf)
  obtain k f where cf: "cf = (k, f)" by (cases cf)
  have mem: "(method_name nm, k, f) \<in> set (methods X rc)"
    using Some cf by (auto dest: map_of_SomeD)
  from exec_keyword_found[OF Some[unfolded cf] e] show ?thesis
  proof (elim disjE exE)
    fix a assume "s' = s\<lparr>argstack := a\<rparr>" with c show ?thesis by (simp add: cs_set_def)
  next
    fix args a assume f: "f args (s\<lparr>argstack := a\<rparr>) = Inr s'"
    have "cs_set (s\<lparr>argstack := a\<rparr>)" using c by (simp add: cs_set_def)
    from methods_cs_set[OF mem f this] show ?thesis .
  qed
qed

lemma execute_tokens_cs_set:
  "execute_tokens X rc ts s = Inr s' \<Longrightarrow> cs_set s \<Longrightarrow> cs_set s'"
proof (induction ts arbitrary: s)
  case Nil then show ?case by simp
next
  case (Cons t ts)
  show ?case
  proof (cases t)
    case (Operand x)
    with Cons.prems have "execute_tokens X rc ts (push x s) = Inr s'" "cs_set (push x s)"
      by (simp_all add: push_def cs_set_def)
    then show ?thesis by (rule Cons.IH)
  next
    case (Keyword nm i)
    from Cons.prems(1) Keyword obtain s1 where s1: "exec_keyword X rc nm i s = Inr s1"
      and rest: "execute_tokens X rc ts s1 = Inr s'"
      by (cases "exec_keyword X rc nm i s") (simp_all add: ebind_def)
    from rest exec_keyword_cs_set[OF s1 Cons.prems(2)] show ?thesis by (rule Cons.IH)
  qed
qed

lemma dict_setitem_not_Nil: "dict_setitem d k v \<noteq> []"
  by (cases d) (auto split: if_splits)

lemma init_fonts_csmap: "init_fonts X d s = Inr s' \<Longrightarrow> csmap s' = csmap s"
  by (induction d arbitrary: s) (auto simp: ebind_def split: sum.splits)

lemma init_colorspaces_csmap: "init_colorspaces X d s = Inr s' \<Longrightarrow> csmap s \<noteq> [] \<Longrightarrow> csmap s' \<noteq> []"
proof (induction d arbitrary: s)
  case Nil then show ?case by simp
next
  case (Cons a d)
  obtain csid spec where a: "a = (csid, spec)" by (cases a)
  from Cons.prems a show ?case
    by (auto simp: ebind_def dict_setitem_not_Nil split: sum.splits option.splits
        dest!: Cons.IH)
qed

lemma init_xobjects_csmap: "csmap (init_xobjects d s) = csmap s"
  by (induction d arbitrary: s) auto

lemma init_items_csmap: "init_items X d s = Inr s' \<Longrightarrow> csmap s \<noteq> [] \<Longrightarrow> csmap s' \<noteq> []"
proof (induction d arbitrary: s)
  case Nil then show ?case by simp
next
  case (Cons a d)
  obtain k v where a: "a = (k, v)" by (cases a)
  from Cons.prems(1) a obtain s1 where
    s1: "(if k = ''Font'' then ebind (dict_value X v) (\<lambda>d. init_fonts X d s)
            else if k = ''ColorSpace'' then
              ebind (dict_value X v) (\<lambda>d. init_colorspaces X d s)
            else if k = ''ProcSet'' then ebind (list_value X v) (\<lambda>l. Inr s)
            else if k = ''XObject'' then
              ebind (dict_value X v) (\<lambda>d. Inr (init_xobjects d s))
            else Inr s) = Inr s1" and rest: "init_items X d s1 = Inr s'"
    by (auto simp: ebind_def split: sum.splits)
  have "csmap s1 \<noteq> []"
    using s1 Cons.prems(2)
    by (auto simp: ebind_def init_xobjects_csmap split: if_splits sum.splits
        dest: init_fonts_csmap init_colorspaces_csmap)
  with rest show ?case by (rule Cons.IH)
qed

lemma init_resources_csmap:
  "init_resources X res s = Inr s1 \<Longrightarrow> PREDEFINED_COLORSPACE X \<noteq> [] \<Longrightarrow> csmap s1 \<noteq> []"
  by (auto simp: init_resources_def Let_def ebind_def split: if_splits sum.splits
      dest!: init_items_csmap)

lemma init_state_cs_set: "csmap s \<noteq> [] \<Longrightarrow> cs_set (init_state m s)"
  by (cases "csmap s") (auto simp: init_state_def cs_set_def device_call_def Let_def)

text \<open>
  Claim C10. In an execution started through \<^verbatim>\<open>render_contents\<close> (that is, from the
  state that \<^verbatim>\<open>init_state\<close> builds after \<^verbatim>\<open>init_resources\<close>), with a non-empty table
  of predefined color spaces, \<^verbatim>\<open>scs\<close> and \<^verbatim>\<open>ncs\<close> are not \<^verbatim>\<open>None\<close> in any state
  reached by executing tokens, so \<^verbatim>\<open>do_SCN\<close> and \<^verbatim>\<open>do_scn\<close> never take their
  no-colorspace branch there: what they do does not depend on the strict flag.
\<close>

theorem C10_color_spaces_always_set:
  assumes "PREDEFINED_COLORSPACE X \<noteq> []"
    and "init_resources X res self = Inr s1"
    and "execute_tokens X rc pre (init_state m s1) = Inr s"
  shows "scs s \<noteq> None \<and> ncs s \<noteq> None
         \<and> do_SCN (X\<lparr>STRICT := b\<rparr>) s = do_SCN X s
         \<and> do_scn (X\<lparr>STRICT := b\<rparr>) s = do_scn X s"
proof -
  have "cs_set (init_state m s1)"
    using assms(1,2) by (intro init_state_cs_set init_resources_csmap)
  with assms(3) have "cs_set s" by (rule execute_tokens_cs_set)
  then show ?thesis by (auto simp: cs_set_def do_SCN_def do_scn_def)
qed


theorem C10_color_spaces_always_set_witness:
  "PREDEFINED_COLORSPACE (example_externals False) \<noteq> []
   \<and> init_resources (example_externals False) (ODict []) example_interp = Inr example_interp
   \<and> execute_tokens (example_externals False) (render_depth 0 (example_externals False))
       [Operand (OLit ''DeviceRGB''), Keyword ''cs'' None]
       (init_state MATRIX_IDENTITY example_interp) =
       Inr (example_interp\<lparr>device := [set_ctm MATRIX_IDENTITY],
                           ncs := Some (PDFColorSpace ''DeviceRGB'' (ONum 3))\<rparr>)
   \<and> scs (example_interp\<lparr>device := [set_ctm MATRIX_IDENTITY],
                           ncs := Some (PDFColorSpace ''DeviceRGB'' (ONum 3))\<rparr>) \<noteq> None
   \<and> do_scn (example_externals False\<lparr>STRICT := True\<rparr>)
        (example_interp\<lparr>device := [set_ctm MATRIX_IDENTITY],
                         ncs := Some (PDFColorSpace ''DeviceRGB'' (ONum 3))\<rparr>) =
      do_scn (example_externals False)
        (example_interp\<lparr>device := [set_ctm MATRIX_IDENTITY],
                         ncs := Some (PDFColorSpace ''DeviceRGB'' (ONum 3))\<rparr>)"
proof -
  let ?X = "example_externals False"
  let ?s = "example_interp\<lparr>device := [set_ctm MATRIX_IDENTITY],
                           ncs := Some (PDFColorSpace ''DeviceRGB'' (ONum 3))\<rparr>"
  have p: "PREDEFINED_COLORSPACE ?X \<noteq> []" by (simp add: example_externals_def)
  have r: "init_resources ?X (ODict []) example_interp = Inr example_interp"
    by (simp add: init_resources_def example_interp_def)
  have e: "execute_tokens ?X (render_depth 0 ?X)
             [Operand (OLit ''DeviceRGB''), Keyword ''cs'' None]
             (init_state MATRIX_IDENTITY example_interp) = Inr ?s"
    by (simp add: dispatch_simps do_cs_def literal_name_def init_state_def example_interp_def
        example_externals_def)
  from C10_color_spaces_always_set [OF p r e, of True] p r e show ?thesis by simp
qed

subsection \<open>Form XObjects\<close>

lemma graft_update:
  "(graft a b)\<lparr>fontmap := x\<rparr> = graft (a\<lparr>fontmap := x\<rparr>) b"
  "(graft a b)\<lparr>csmap := y\<rparr> = graft (a\<lparr>csmap := y\<rparr>) b"
  "(graft a b)\<lparr>xobjmap := z\<rparr> = graft (a\<lparr>xobjmap := z\<rparr>) b"
  "(graft a b)\<lparr>resources := w\<rparr> = graft (a\<lparr>resources := w\<rparr>) b"
  by (simp_all add: graft_def)

lemma graft_sel:
  "fontmap (graft a b) = fontmap a" "csmap (graft a b) = csmap a"
  "xobjmap (graft a b) = xobjmap a" "device (graft a b) = device a"
  by (simp_all add: graft_def)

lemma init_fonts_graft:
  "init_fonts X d (graft a b) = map_sum id (\<lambda>a'. graft a' b) (init_fonts X d a)"
  by (induction d arbitrary: a) (auto simp: ebind_def graft_update graft_sel split: sum.splits)

lemma init_colorspaces_graft:
  "init_colorspaces X d (graft a b) = map_sum id (\<lambda>a'. graft a' b) (init_colorspaces X d a)"
  by (induction d arbitrary: a)
     (auto simp: ebind_def graft_update graft_sel split: sum.splits option.splits)

lemma init_xobjects_graft:
  "init_xobjects d (graft a b) = graft (init_xobjects d a) b"
  by (induction d arbitrary: a) (auto simp: graft_update graft_sel)

lemma init_items_graft:
  "init_items X d (graft a b) = map_sum id (\<lambda>a'. graft a' b) (init_items X d a)"
proof (induction d arbitrary: a)
  case Nil show ?case by simp
next
  case (Cons kv d)
  obtain k v where kv: "kv = (k, v)" by (cases kv)
  show ?case unfolding kv
    by (auto simp: ebind_def init_fonts_graft init_colorspaces_graft init_xobjects_graft Cons.IH
        split: sum.splits)
qed

lemma init_resources_graft:
  "init_resources X res (graft a b) = map_sum id (\<lambda>a'. graft a' b) (init_resources X res a)"
proof -
  have "(graft a b)\<lparr>resources := res, fontmap := [], xobjmap := [], csmap := PREDEFINED_COLORSPACE X\<rparr>
      = graft (a\<lparr>resources := res, fontmap := [], xobjmap := [], csmap := PREDEFINED_COLORSPACE X\<rparr>) b"
    by (simp add: graft_def)
  then show ?thesis
    unfolding init_resources_def Let_def
    by (simp add: ebind_def init_items_graft split: sum.splits)
qed

lemma init_state_graft: "init_state m (graft a b) = init_state m a"
  by (cases a; cases b)
     (simp add: init_state_def graft_def device_call_def Let_def split: list.splits prod.splits)

lemma render_contents_graft:
  "render_contents X rc res strms m (graft a b) = render_contents X rc res strms m a"
  by (cases "init_resources X res a")
     (auto simp: render_contents_def init_resources_graft ebind_def init_state_graft
        split: sum.splits)

lemma init_resources_device_only:
  assumes "device a = device b"
  shows "init_resources X res a = map_sum id (\<lambda>b'. graft b' a) (init_resources X res b)"
proof -
  have "a\<lparr>resources := res, fontmap := [], xobjmap := [], csmap := PREDEFINED_COLORSPACE X\<rparr>
      = graft (b\<lparr>resources := res, fontmap := [], xobjmap := [], csmap := PREDEFINED_COLORSPACE X\<rparr>) a"
    using assms by (simp add: graft_def)
  then show ?thesis
    unfolding init_resources_def Let_def
    by (simp add: ebind_def init_items_graft split: sum.splits)
qed

lemma render_contents_device_only:
  assumes "device a = device b"
  shows "render_contents X rc res strms m a = render_contents X rc res strms m b"
  by (cases "init_resources X res b")
     (auto simp: render_contents_def init_resources_device_only[OF assms] ebind_def
        init_state_graft split: sum.splits)

lemma init_fonts_device: "init_fonts X d s = Inr s' \<Longrightarrow> device s' = device s"
  by (induction d arbitrary: s) (auto simp: ebind_def split: sum.splits)

lemma init_colorspaces_device: "init_colorspaces X d s = Inr s' \<Longrightarrow> device s' = device s"
  by (induction d arbitrary: s) (auto simp: ebind_def split: sum.splits option.splits)

lemma init_xobjects_device: "device (init_xobjects d s) = device s"
  by (induction d arbitrary: s) auto

lemma init_items_device: "init_items X d s = Inr s' \<Longrightarrow> device s' = device s"
proof (induction d arbitrary: s)
  case Nil then show ?case by simp
next
  case (Cons kv d)
  obtain k v where kv: "kv = (k, v)" by (cases kv)
  from Cons.prems show ?case unfolding kv
    by (auto simp: ebind_def init_xobjects_device split: sum.splits if_splits
        dest!: Cons.IH init_fonts_device init_colorspaces_device)
qed

lemma init_resources_device: "init_resources X res s = Inr s' \<Longrightarrow> device s' = device s"
  by (auto simp: init_resources_def Let_def ebind_def split: if_splits sum.splits
      dest!: init_items_device)

lemma init_state_start:
  "ctm (init_state m s) = m \<and> device (init_state m s) = device s @ [set_ctm m]
   \<and> gstack (init_state m s) = [] \<and> argstack (init_state m s) = [] \<and> curpath (init_state m s) = []
   \<and> textstate (init_state m s) = PDFTextState_init \<and> graphicstate (init_state m s) = PDFGraphicState_init"
  by (cases "csmap s") (auto simp: init_state_def device_call_def Let_def split: prod.splits)

text \<open>
  Claim C5. For a Form XObject with a \<^verbatim>\<open>BBox\<close> entry and matrix \<open>M\<close> (its \<^verbatim>\<open>Matrix\<close>
  entry, or the identity when it has none), \<^verbatim>\<open>Do\<close> calls
  \<^verbatim>\<open>begin_figure(xobjid, bbox, matrix)\<close>, then renders the XObject as the only stream
  in a child interpreter, then calls \<^verbatim>\<open>end_figure(xobjid)\<close>. The child shares the
  device and starts from nothing else of the parent (\<open>fresh\<close> is any interpreter); its
  resources are the \<^verbatim>\<open>Resources\<close> entry, or the parent's when there is none; its
  initial \<^verbatim>\<open>ctm\<close> is \<open>mult_matrix M (ctm parent)\<close>, which is the first thing it tells
  the device. The parent keeps its state; it takes the device as the child leaves it.
\<close>

theorem C5_form_xobject:
  assumes x: "map_of (xobjmap s) xobjid = Some (OStream attrs data)"
    and sub: "map_of attrs ''Subtype'' = Some (OLit ''Form'')"
    and bb: "map_of attrs ''BBox'' = Some (OList bbox)"
    and mat: "map_of attrs ''Matrix'' = None \<and> mobj = matrix_obj MATRIX_IDENTITY \<and> M = MATRIX_IDENTITY
              \<or> map_of attrs ''Matrix'' = Some mobj \<and> mobj = OList ms \<and> unpack_matrix ms = Inr M"
    and rs: "map_of attrs ''Resources'' = None \<and> resources s = ODict r
             \<or> map_of attrs ''Resources'' = Some (ODict r) \<and> r \<noteq> []"
  shows "do_Do X (render_contents X rc) (OLit xobjid) s =
           ebind (init_resources X (ODict r)
                    (fresh\<lparr>device := device s @ [begin_figure xobjid (OList bbox) mobj]\<rparr>)) (\<lambda>s1.
           ebind (execute X rc [OStream attrs data] (init_state (mult_matrix M (ctm s)) s1))
             (\<lambda>child. Inr (s\<lparr>device := device child @ [end_figure xobjid]\<rparr>)))
         \<and> (\<forall>s1. init_resources X (ODict r)
                    (fresh\<lparr>device := device s @ [begin_figure xobjid (OList bbox) mobj]\<rparr>) = Inr s1 \<longrightarrow>
               ctm (init_state (mult_matrix M (ctm s)) s1) = mult_matrix M (ctm s)
               \<and> device (init_state (mult_matrix M (ctm s)) s1) =
                   device s @ [begin_figure xobjid (OList bbox) mobj,
                               set_ctm (mult_matrix M (ctm s))])"
proof -
  let ?s1 = "s\<lparr>device := device s @ [begin_figure xobjid (OList bbox) mobj]\<rparr>"
  let ?c = "fresh\<lparr>device := device s @ [begin_figure xobjid (OList bbox) mobj]\<rparr>"
  have lm: "list_value X mobj = Inr mobj" and um: "unpack_matrix (elems mobj) = Inr M"
    using mat by (auto simp: list_value_def matrix_obj_def MATRIX_IDENTITY_def unpack_matrix_def ebind_def)
  have lb: "list_value X (OList bbox) = Inr (OList bbox)"
    and ls: "list_value X (OList [OStream attrs data]) = Inr (OList [OStream attrs data])"
    by (simp_all add: list_value_def)
  have mo: "(case map_of attrs ''Matrix'' of None \<Rightarrow> matrix_obj MATRIX_IDENTITY | Some m \<Rightarrow> m) = mobj"
    using mat by auto
  have res: "(if truthy (case map_of attrs ''Resources'' of None \<Rightarrow> ONull | Some r \<Rightarrow> r)
              then ebind (dict_value X (case map_of attrs ''Resources'' of None \<Rightarrow> ONull | Some r \<Rightarrow> r)) (\<lambda>d. Inr (ODict d))
              else py_copy (resources s)) = Inr (ODict r)"
    using rs by (auto simp: dict_value_def ebind_def)
  have dev: "render_contents X rc (ODict r) (OList [OStream attrs data]) (mult_matrix M (ctm s)) ?s1
           = render_contents X rc (ODict r) (OList [OStream attrs data]) (mult_matrix M (ctm s)) ?c"
    by (rule render_contents_device_only) simp
  have "do_Do X (render_contents X rc) (OLit xobjid) s =
        ebind (render_contents X rc (ODict r) (OList [OStream attrs data]) (mult_matrix M (ctm s)) ?s1)
          (\<lambda>child. Inr (s\<lparr>device := device child @ [end_figure xobjid]\<rparr>))"
    unfolding do_Do_def
    by (simp add: literal_name_def x stream_value_def sub bb dict_getitem_def lb mo lm um res
        Let_def dup_def device_call_def ebind_def split: sum.splits)
  also have "\<dots> = ebind (init_resources X (ODict r) ?c) (\<lambda>s1.
           ebind (execute X rc [OStream attrs data] (init_state (mult_matrix M (ctm s)) s1))
             (\<lambda>child. Inr (s\<lparr>device := device child @ [end_figure xobjid]\<rparr>)))"
    unfolding dev by (simp add: render_contents_def ls ebind_def split: sum.splits)
  finally have A: "do_Do X (render_contents X rc) (OLit xobjid) s = \<dots>" .
  have B: "\<forall>s1. init_resources X (ODict r) ?c = Inr s1 \<longrightarrow>
               ctm (init_state (mult_matrix M (ctm s)) s1) = mult_matrix M (ctm s)
               \<and> device (init_state (mult_matrix M (ctm s)) s1) =
                   device s @ [begin_figure xobjid (OList bbox) mobj, set_ctm (mult_matrix M (ctm s))]"
    by (auto simp: init_state_start dest!: init_resources_device)
  from A B show ?thesis by blast
qed


theorem C5_form_xobject_witness:
  "map_of (xobjmap example_parent) ''X1'' =
     Some (OStream [(''Subtype'', OLit ''Form''),
                    (''BBox'', OList [ONum 0, ONum 0, ONum 100, ONum 100]),
                    (''Matrix'', OList [ONum 2, ONum 0, ONum 0, ONum 2, ONum 10, ONum 20])]
             ''1 1 m 2 2 l S'')
   \<and> unpack_matrix [ONum 2, ONum 0, ONum 0, ONum 2, ONum 10, ONum 20] =
       Inr (2, 0, 0, 2, 10, 20)
   \<and> resources example_parent = ODict []
   \<and> mult_matrix (2, 0, 0, 2, 10, 20) (ctm example_parent) = (2, 0, 0, 2, 10, 20)
   \<and> do_Do (example_externals False)
        (render_contents (example_externals False) (render_depth 0 (example_externals False)))
        (OLit ''X1'') example_parent =
      Inr (example_parent\<lparr>device :=
        [begin_figure ''X1'' (OList [ONum 0, ONum 0, ONum 100, ONum 100])
           (OList [ONum 2, ONum 0, ONum 0, ONum 2, ONum 10, ONum 20]),
         set_ctm (2, 0, 0, 2, 10, 20),
         paint_path PDFGraphicState_init True False False
           [Move (ONum 1) (ONum 1), Line (ONum 2) (ONum 2)],
         end_figure ''X1'']\<rparr>)"
proof -
  let ?X = "example_externals False"
  let ?attrs = "[(''Subtype'', OLit ''Form''),
                 (''BBox'', OList [ONum 0, ONum 0, ONum 100, ONum 100]),
                 (''Matrix'', OList [ONum 2, ONum 0, ONum 0, ONum 2, ONum 10, ONum 20])]"
  let ?ms = "[ONum 2, ONum 0, ONum 0, ONum 2, ONum 10, ONum 20]"
  let ?M = "(2, 0, 0, 2, 10, 20) :: Matrix"
  have x: "map_of (xobjmap example_parent) ''X1'' = Some (OStream ?attrs ''1 1 m 2 2 l S'')"
    by (simp add: example_parent_def example_form_def)
  have sub: "map_of ?attrs ''Subtype'' = Some (OLit ''Form'')" by simp
  have bb: "map_of ?attrs ''BBox'' = Some (OList [ONum 0, ONum 0, ONum 100, ONum 100])"
    by simp
  have um: "unpack_matrix ?ms = Inr ?M" by (simp add: unpack_matrix_def ebind_def)
  have mat: "map_of ?attrs ''Matrix'' = None \<and> OList ?ms = matrix_obj MATRIX_IDENTITY
               \<and> ?M = MATRIX_IDENTITY
             \<or> map_of ?attrs ''Matrix'' = Some (OList ?ms) \<and> OList ?ms = OList ?ms
               \<and> unpack_matrix ?ms = Inr ?M"
    using um by simp
  have r: "resources example_parent = ODict []"
    by (simp add: example_parent_def example_interp_def)
  have rs: "map_of ?attrs ''Resources'' = None \<and> resources example_parent = ODict []
            \<or> map_of ?attrs ''Resources'' = Some (ODict []) \<and> ([] :: (string \<times> obj) list) \<noteq> []"
    using r by simp
  have c: "mult_matrix ?M (ctm example_parent) = ?M"
    by (simp add: example_parent_def example_interp_def MATRIX_IDENTITY_def)
  have i: "init_resources ?X (ODict [])
             (example_interp\<lparr>device := device example_parent @
                [begin_figure ''X1'' (OList [ONum 0, ONum 0, ONum 100, ONum 100]) (OList ?ms)]\<rparr>) =
           Inr (example_interp\<lparr>device :=
                [begin_figure ''X1'' (OList [ONum 0, ONum 0, ONum 100, ONum 100]) (OList ?ms)]\<rparr>)"
    by (simp add: init_resources_def example_parent_def example_interp_def)
  have e: "execute ?X rc [OStream ?attrs ''1 1 m 2 2 l S'']
             (init_state ?M (example_interp\<lparr>device :=
                [begin_figure ''X1'' (OList [ONum 0, ONum 0, ONum 100, ONum 100]) (OList ?ms)]\<rparr>)) =
           Inr (example_interp\<lparr>device :=
                [begin_figure ''X1'' (OList [ONum 0, ONum 0, ONum 100, ONum 100]) (OList ?ms),
                 set_ctm ?M,
                 paint_path PDFGraphicState_init True False False
                   [Move (ONum 1) (ONum 1), Line (ONum 2) (ONum 2)]],
               ctm := ?M\<rparr>)" for rc
    by (simp add: execute_def init_state_def example_interp_def example_externals_def
        example_nextobjects_def dispatch_simps do_m_def do_l_def do_S_def)
  from C5_form_xobject [OF x sub bb mat rs, of ?X "render_depth 0 ?X" example_interp]
  have "do_Do ?X (render_contents ?X (render_depth 0 ?X)) (OLit ''X1'') example_parent =
        Inr (example_parent\<lparr>device :=
          [begin_figure ''X1'' (OList [ONum 0, ONum 0, ONum 100, ONum 100]) (OList ?ms),
           set_ctm ?M,
           paint_path PDFGraphicState_init True False False
             [Move (ONum 1) (ONum 1), Line (ONum 2) (ONum 2)],
           end_figure ''X1'']\<rparr>)"
    by (simp add: c i e ebind_def)
  with x um r c show ?thesis by simp
qed

subsection \<open>Inline images\<close>

lemma get_inline_loop_scanned:
  "get_inline_loop X target p i data = Inr (p', data') \<Longrightarrow> scanned target i data
   \<Longrightarrow> \<exists>pre c. isspace c \<and> data' = pre @ target @ [c]"
proof (induction X target p i data rule: get_inline_loop.induct)
  case (1 X target p i data)
  show ?case
  proof (cases "i \<le> length target")
    case False
    with "1.prems" show ?thesis
      by (subst (asm) get_inline_loop.simps) (auto simp: scanned_def)
  next
    case le: True
    from "1.prems"(1) le obtain p1 where f: "fillbuf X p = Inr p1"
      by (subst (asm) get_inline_loop.simps) (auto split: sum.splits)
    from "1.prems"(2) le obtain pre where pre: "data = pre @ take i target"
      by (auto simp: scanned_def)
    show ?thesis
    proof (cases "i = 0")
      case False
      from "1.prems"(1) le f False have lt: "charpos p1 < length (buf p1)"
        by (subst (asm) get_inline_loop.simps) (auto split: if_splits)
      define c where "c = buf p1 ! charpos p1"
      define data1 where "data1 = data @ [c]"
      define p2 where "p2 = p1\<lparr>charpos := charpos p1 + 1\<rparr>"
      let ?m = "length target \<le> i \<and> isspace c \<or> i < length target \<and> c = target ! i"
      from "1.prems"(1) have e: "(if ?m then get_inline_loop X target p2 (i + 1) data1
                 else get_inline_loop X target p2 0 data1) = Inr (p', data')"
        apply (subst (asm) get_inline_loop.simps)
        apply (simp only: le f False lt if_True if_False sum.case Let_def not_False_eq_True
             c_def[symmetric] data1_def[symmetric] p2_def[symmetric])
        done
      show ?thesis
      proof (cases ?m)
        case True
        with e have r: "get_inline_loop X target p2 (i + 1) data1 = Inr (p', data')" by simp
        have "scanned target (i + 1) data1"
        proof (cases "i < length target")
          case True
          with \<open>?m\<close> have "c = target ! i" by auto
          with True pre have "data1 = pre @ take (i + 1) target"
            by (simp add: data1_def take_Suc_conv_app_nth)
          with True show ?thesis by (auto simp: scanned_def)
        next
          case False
          with le have il: "i = length target" by simp
          with \<open>?m\<close> have "isspace c" by auto
          with il pre show ?thesis by (auto simp: scanned_def data1_def)
        qed
        from "1.IH"(1)[OF le f False lt c_def data1_def p2_def True r this] show ?thesis .
      next
        case nm: False
        with e have r: "get_inline_loop X target p2 0 data1 = Inr (p', data')" by simp
        have "scanned target 0 data1" by (simp add: scanned_def)
        from "1.IH"(2)[OF le f False lt c_def data1_def p2_def nm r this] show ?thesis .
      qed
    next
      case i0: True
      from "1.prems"(1) le f i0 obtain t0 ts where t: "target = t0 # ts"
        by (subst (asm) get_inline_loop.simps) (auto split: list.splits)
      show ?thesis
      proof (cases "index_from (buf p1) t0 (charpos p1)")
        case None
        from "1.prems"(1) have r: "get_inline_loop X target (p1\<lparr>charpos := length (buf p1)\<rparr>) 0
                    (data @ drop (charpos p1) (buf p1)) = Inr (p', data')"
          apply (subst (asm) get_inline_loop.simps)
          apply (simp only: le f i0 if_True if_False sum.case)
          apply (simp add: t None)
          done
        have "scanned target 0 (data @ drop (charpos p1) (buf p1))" by (simp add: scanned_def)
        from "1.IH"(3)[OF le f _ t None r this] i0 show ?thesis by simp
      next
        case (Some j)
        let ?d = "data @ take (j + 1 - charpos p1) (drop (charpos p1) (buf p1))"
        from "1.prems"(1) have r: "get_inline_loop X target (p1\<lparr>charpos := j + 1\<rparr>) 1 ?d = Inr (p', data')"
          apply (subst (asm) get_inline_loop.simps)
          apply (simp only: le f i0 if_True if_False sum.case)
          apply (simp add: t Some)
          done
        from index_from_Some[OF Some] have j: "charpos p1 \<le> j" "j < length (buf p1)" "buf p1 ! j = t0"
          by auto
        have "take (j + 1 - charpos p1) (drop (charpos p1) (buf p1))
              = take (j - charpos p1) (drop (charpos p1) (buf p1)) @ [t0]"
        proof -
          have "j + 1 - charpos p1 = Suc (j - charpos p1)" using j by simp
          moreover have "j - charpos p1 < length (drop (charpos p1) (buf p1))" using j by simp
          moreover have "drop (charpos p1) (buf p1) ! (j - charpos p1) = t0" using j by simp
          ultimately show ?thesis by (simp add: take_Suc_conv_app_nth)
        qed
        then have "scanned target 1 ?d" by (auto simp: scanned_def t)
        from "1.IH"(4)[OF le f _ t Some r this] i0 show ?thesis by simp
      qed
    qed
  qed
qed

lemma get_inline_data_scanned:
  assumes "get_inline_data X pos target p = Inr (p', pos', data)"
  shows "pos' = pos \<and> (\<exists>p0 pre c. seek X pos p = Inr p0
           \<and> get_inline_loop X target p0 0 [] = Inr (p', pre @ target @ [c])
           \<and> isspace c \<and> data = strip_eol pre)"
proof -
  from assms obtain p0 raw where s: "seek X pos p = Inr p0"
    and l: "get_inline_loop X target p0 0 [] = Inr (p', raw)"
    and d: "data = strip_eol (take (length raw - (length target + 1)) raw)" and "pos' = pos"
    by (auto simp: get_inline_data_def ebind_def split: sum.splits)
  have "scanned target 0 []" by (simp add: scanned_def)
  from get_inline_loop_scanned[OF l this] obtain pre c where
    c: "isspace c" and raw: "raw = pre @ target @ [c]" by blast
  have "take (length raw - (length target + 1)) raw = pre" by (simp add: raw)
  with s l d c raw \<open>pos' = pos\<close> show ?thesis by auto
qed

text \<open>
  Claim C6, as stated: whenever the key \<^verbatim>\<open>F\<close> of an inline image names an ASCII85
  filter, the tokenizer scans for \<^verbatim>\<open>~>\<close>, the data of the stream ends with \<^verbatim>\<open>~>\<close>
  and no \<^verbatim>\<open>EI\<close> keyword is pushed. It fails when the filter is named in an array
  after another one: for \<^verbatim>\<open>BI /F [/Fl /A85] ID x~> EI Q\<close> the tokenizer scans for
  \<^verbatim>\<open>EI\<close>, the data of the stream is \<^verbatim>\<open>x~>\<close> and a space, and the \<^verbatim>\<open>EI\<close> keyword is
  pushed after the stream.
\<close>

theorem C6_counterexample:
  "OLit ''A85'' \<in> set [OLit ''Fl'', OLit ''A85'']
   \<and> ''A85'' \<in> set LITERALS_ASCII85_DECODE
   \<and> do_keyword (example_externals False) 17 ''ID'' (Some 1) example_inline_array =
     Inr (example_inline_array
       \<lparr>fp := Some (''BI /F [/Fl /A85] ID x~> EI Q'', 28), bufpos := 20,
        buf := ''x~> EI Q'', charpos := 7, contexts := [], curtype := None,
        curstack :=
          [Tuple2 20 (Stream [(''F'', Obj (OList [OLit ''Fl'', OLit ''A85'']))] ''x~> ''),
           Tuple2 20 (Kwd ''EI'')]\<rparr>)"
  apply (simp add: do_keyword_def end_type_def example_inline_array_def ps_literal_name_def
      literal_name_def inline_eos_def ebind_def get_inline_data_def seek_def fillfp_def
      LITERALS_ASCII85_DECODE_def)
  apply (simp add: example_externals_def ebind_def parser_push_def
      get_inline_loop.simps fillbuf_def fillbuf_loop.simps fillfp_def index_from_def
      isspace_def strip_eol_def Let_def)
  done

text \<open>
  Claim C6, amended. At \<^verbatim>\<open>ID\<close>, when the key \<^verbatim>\<open>F\<close> of the inline dictionary is an
  ASCII85 literal (\<^verbatim>\<open>/A85\<close> or \<^verbatim>\<open>/ASCII85Decode\<close>) or a list whose first element is
  one, the tokenizer scans for \<^verbatim>\<open>~>\<close> instead of \<^verbatim>\<open>EI\<close>, pushes a stream whose data
  ends with the bytes \<^verbatim>\<open>~>\<close> (appended back to the payload), and pushes no \<^verbatim>\<open>EI\<close>
  keyword; when the end marker is \<^verbatim>\<open>EI\<close>, it pushes the stream and then the \<^verbatim>\<open>EI\<close>
  keyword. In both cases the scan has read the payload, the end marker and one byte of
  white space.
\<close>

theorem C6_inline_image_terminator:
  assumes et: "end_type ''inline'' p = Inr (p1, pos0, objs)"
    and ev: "even (length objs)"
    and d: "inline_dict X (choplist2 objs) [] = Inr d"
    and eos: "map_of d ''F'' = Some flt
                \<and> (flt = Obj (OLit n) \<or> flt = Obj (OList (OLit n # rest)))
                \<and> n \<in> set LITERALS_ASCII85_DECODE \<and> eos = ''~>''
              \<or> inline_eos (map_of d ''F'') = Inr ''EI'' \<and> eos = ''EI''"
    and g: "get_inline_data X (pos + 3) eos p1 = Inr (p2, pos1, data)"
  shows "do_keyword X pos ''ID'' i p =
           Inr (p2\<lparr>curstack := curstack p2 @
                  (if eos = ''~>'' then [Tuple2 pos1 (Stream d (data @ ''~>''))]
                   else [Tuple2 pos1 (Stream d data), Tuple2 pos1 (Kwd ''EI'')])\<rparr>)
         \<and> pos1 = pos + 3
         \<and> (\<exists>p0 pre c. seek X (pos + 3) p1 = Inr p0
               \<and> get_inline_loop X eos p0 0 [] = Inr (p2, pre @ eos @ [c])
               \<and> isspace c \<and> data = strip_eol pre)"
proof -
  have ie: "inline_eos (map_of d ''F'') = Inr eos"
    using eos by (auto simp: inline_eos_def ebind_def)
  have e2: "eos = ''~>'' \<or> eos = ''EI''" using eos by auto
  have "do_keyword X pos ''ID'' i p =
           Inr (p2\<lparr>curstack := curstack p2 @
                  (if eos = ''~>'' then [Tuple2 pos1 (Stream d (data @ ''~>''))]
                   else [Tuple2 pos1 (Stream d data), Tuple2 pos1 (Kwd ''EI'')])\<rparr>)"
  proof -
    have g': "get_inline_data X (Suc (Suc (Suc pos))) eos p1 = Inr (p2, pos1, data)"
      using g by (simp add: numeral_3_eq_3)
    from e2 show ?thesis
    proof
      assume "eos = ''~>''"
      with ev g' ie show ?thesis
        by (simp add: do_keyword_def et d ebind_def parser_push_def Let_def)
    next
      assume "eos = ''EI''"
      with ev g' ie show ?thesis
        by (simp add: do_keyword_def et d ebind_def parser_push_def Let_def)
    qed
  qed
  with get_inline_data_scanned[OF g] show ?thesis by simp
qed


theorem C6_inline_image_terminator_witness:
  "end_type ''inline'' example_inline =
     Inr (example_inline\<lparr>contexts := [], curtype := None, curstack := []\<rparr>, 0,
          [Obj (OLit ''F''), Obj (OLit ''A85'')])
   \<and> inline_dict (example_externals False)
        (choplist2 [Obj (OLit ''F''), Obj (OLit ''A85'')]) [] =
       Inr [(''F'', Obj (OLit ''A85''))]
   \<and> ''A85'' \<in> set LITERALS_ASCII85_DECODE
   \<and> get_inline_data (example_externals False) (11 + 3) ''~>''
        (example_inline\<lparr>contexts := [], curtype := None, curstack := []\<rparr>) =
       Inr (example_inline\<lparr>fp := Some (''BI /F /A85 ID abc~> EI'', 22), bufpos := 14,
              buf := ''abc~> EI'', charpos := 6, contexts := [], curtype := None,
              curstack := []\<rparr>, 14, ''abc'')
   \<and> do_keyword (example_externals False) 11 ''ID'' (Some 1) example_inline =
       Inr (example_inline\<lparr>fp := Some (''BI /F /A85 ID abc~> EI'', 22), bufpos := 14,
              buf := ''abc~> EI'', charpos := 6, contexts := [], curtype := None,
              curstack := [Tuple2 14 (Stream [(''F'', Obj (OLit ''A85''))] ''abc~>'')]\<rparr>)"
proof -
  let ?X = "example_externals False"
  let ?p1 = "example_inline\<lparr>contexts := [], curtype := None, curstack := []\<rparr>"
  let ?p2 = "example_inline\<lparr>fp := Some (''BI /F /A85 ID abc~> EI'', 22), bufpos := 14,
              buf := ''abc~> EI'', charpos := 6, contexts := [], curtype := None,
              curstack := []\<rparr>"
  let ?objs = "[Obj (OLit ''F''), Obj (OLit ''A85'')]"
  let ?d = "[(''F'', Obj (OLit ''A85''))]"
  have et: "end_type ''inline'' example_inline = Inr (?p1, 0, ?objs)"
    by (simp add: end_type_def example_inline_def)
  have ev: "even (length ?objs)" by simp
  have d: "inline_dict ?X (choplist2 ?objs) [] = Inr ?d"
    by (simp add: ps_literal_name_def literal_name_def ebind_def)
  have n: "''A85'' \<in> set LITERALS_ASCII85_DECODE" by (simp add: LITERALS_ASCII85_DECODE_def)
  have eos: "map_of ?d ''F'' = Some (Obj (OLit ''A85''))
               \<and> (Obj (OLit ''A85'') = Obj (OLit ''A85'')
                    \<or> Obj (OLit ''A85'') = Obj (OList (OLit ''A85'' # [])))
               \<and> ''A85'' \<in> set LITERALS_ASCII85_DECODE \<and> ''~>'' = ''~>''
             \<or> inline_eos (map_of ?d ''F'') = Inr ''EI'' \<and> ''~>'' = ''EI''"
    using n by simp
  have s: "seek ?X 14 ?p1 =
             Inr (example_inline\<lparr>fp := Some (''BI /F /A85 ID abc~> EI'', 14), bufpos := 14,
                    buf := [], charpos := 0, contexts := [], curtype := None,
                    curstack := [], results := []\<rparr>)"
    by (simp add: seek_def fillfp_def example_inline_def ebind_def)
  have g: "get_inline_data ?X (11 + 3) ''~>'' ?p1 = Inr (?p2, 14, ''abc'')"
    apply (simp add: get_inline_data_def s)
    apply (simp add: example_inline_def example_externals_def ebind_def
        get_inline_loop.simps fillbuf_def fillbuf_loop.simps fillfp_def index_from_def
        isspace_def strip_eol_def Let_def)
    done
  from C6_inline_image_terminator [OF et ev d eos g, of "Some 1"] et d n g
  show ?thesis by (simp add: example_inline_def)
qed

lemma example_inline_EI_pushed:
  "do_keyword (example_externals False) 8 ''ID'' (Some 1) example_inline_EI =
     Inr (example_inline_EI\<lparr>fp := Some (''BI /W 1 ID ab EI Q'', 18), bufpos := 11,
            buf := ''ab EI Q'', charpos := 6, contexts := [], curtype := None,
            curstack := [Tuple2 11 (Stream [(''W'', Obj (ONum 1))] ''ab ''),
                         Tuple2 11 (Kwd ''EI'')]\<rparr>)"
  apply (simp add: do_keyword_def end_type_def example_inline_EI_def ps_literal_name_def
      literal_name_def inline_eos_def ebind_def get_inline_data_def seek_def fillfp_def)
  apply (simp add: example_externals_def ebind_def parser_push_def
      get_inline_loop.simps fillbuf_def fillbuf_loop.simps fillfp_def index_from_def
      isspace_def strip_eol_def Let_def)
  done

subsection \<open>Save and restore\<close>

text \<open>
  Claim C4. From any interpreter state, \<^verbatim>\<open>q\<close>, then any operands and operators whose
  save/restore pairs are nested, then the matching \<^verbatim>\<open>Q\<close>: if the sequence runs to its
  end, then \<^verbatim>\<open>ctm\<close>, \<^verbatim>\<open>textstate\<close> and \<^verbatim>\<open>graphicstate\<close> (and \<^verbatim>\<open>gstack\<close>) have the
  values they had at the \<^verbatim>\<open>q\<close>, and the last call the device receives, made by the
  \<^verbatim>\<open>Q\<close>, is \<^verbatim>\<open>set_ctm\<close> with the restored \<^verbatim>\<open>ctm\<close>.
\<close>

theorem C4_save_restore_round_trip:
  assumes n: "nested 0 ts"
    and ex: "execute_tokens X rc (Keyword ''q'' i # ts @ [Keyword ''Q'' j]) s = Inr s'"
  shows "ctm s' = ctm s \<and> textstate s' = textstate s \<and> graphicstate s' = graphicstate s
         \<and> gstack s' = gstack s
         \<and> (\<exists>s2. execute_tokens X rc (Keyword ''q'' i # ts) s = Inr s2
                 \<and> device s' = device s2 @ [set_ctm (ctm s)])"
proof -
  let ?s1 = "s\<lparr>gstack := gstack s @ [(ctm s, textstate s, graphicstate s)]\<rparr>"
  from ex have "ebind (execute_tokens X rc ts ?s1) (execute_tokens X rc [Keyword ''Q'' j]) = Inr s'"
    by (simp add: exec_q ebind_def execute_tokens_append)
  then obtain s2 where s2: "execute_tokens X rc ts ?s1 = Inr s2" and last: "exec_keyword X rc ''Q'' j s2 = Inr s'"
    by (cases "execute_tokens X rc ts ?s1") (simp_all add: ebind_def split: sum.splits)
  have g2: "gstack s2 = gstack s @ [(ctm s, textstate s, graphicstate s)]"
    by (rule nested_gstack[OF n s2, where E="[]"]) simp_all
  have q2: "execute_tokens X rc (Keyword ''q'' i # ts) s = Inr s2"
    using s2 by (simp add: exec_q ebind_def)
  from last g2 have "s' = s2\<lparr>gstack := gstack s, ctm := ctm s, textstate := textstate s,
     graphicstate := graphicstate s, device := device s2 @ [set_ctm (ctm s)]\<rparr>"
    by (simp add: exec_Q)
  with q2 show ?thesis by simp
qed


theorem C4_save_restore_round_trip_witness:
  "nested 0 [Operand (ONum 5), Keyword ''w'' None]
   \<and> execute_tokens (example_externals False) (render_depth 0 (example_externals False))
       (Keyword ''q'' None # [Operand (ONum 5), Keyword ''w'' None] @ [Keyword ''Q'' None])
       example_interp = Inr (example_interp\<lparr>device := [set_ctm MATRIX_IDENTITY]\<rparr>)
   \<and> graphicstate (example_interp\<lparr>device := [set_ctm MATRIX_IDENTITY]\<rparr>) =
       graphicstate example_interp
   \<and> execute_tokens (example_externals False) (render_depth 0 (example_externals False))
       [Keyword ''q'' None, Operand (ONum 5), Keyword ''w'' None] example_interp =
       Inr (example_interp
         \<lparr>gstack := [(MATRIX_IDENTITY, PDFTextState_init, PDFGraphicState_init)],
          graphicstate := PDFGraphicState_init\<lparr>linewidth := ONum 5\<rparr>\<rparr>)"
proof -
  let ?X = "example_externals False"
  let ?ts = "[Operand (ONum 5), Keyword ''w'' None]"
  let ?s' = "example_interp\<lparr>device := [set_ctm MATRIX_IDENTITY]\<rparr>"
  have n: "nested 0 ?ts" by simp
  have ex: "execute_tokens ?X (render_depth 0 ?X)
              (Keyword ''q'' None # ?ts @ [Keyword ''Q'' None]) example_interp = Inr ?s'"
    by (simp add: dispatch_simps do_q_def do_Q_def do_w_def get_current_state_def
        set_current_state_def PDFTextState_copy_id PDFGraphicState_copy_id example_interp_def)
  have mid: "execute_tokens ?X (render_depth 0 ?X)
              [Keyword ''q'' None, Operand (ONum 5), Keyword ''w'' None] example_interp =
             Inr (example_interp
               \<lparr>gstack := [(MATRIX_IDENTITY, PDFTextState_init, PDFGraphicState_init)],
                graphicstate := PDFGraphicState_init\<lparr>linewidth := ONum 5\<rparr>\<rparr>)"
    by (simp add: dispatch_simps do_q_def do_w_def get_current_state_def
        PDFTextState_copy_id PDFGraphicState_copy_id example_interp_def)
  from C4_save_restore_round_trip [OF n ex] n ex mid show ?thesis by simp
qed

text \<open>
  Claim C9. \<^verbatim>\<open>Q\<close> on an empty \<^verbatim>\<open>gstack\<close> is a no-op: the interpreter, with its
  \<^verbatim>\<open>ctm\<close>, \<^verbatim>\<open>textstate\<close>, \<^verbatim>\<open>graphicstate\<close> and \<^verbatim>\<open>gstack\<close>, is unchanged, and the
  device receives no call. This holds of the handler and of the dispatcher on the
  keyword.
\<close>

theorem C9_Q_on_empty_stack:
  "gstack s = [] \<Longrightarrow> do_Q s = Inr s \<and> exec_keyword X rc ''Q'' i s = Inr s"
  by (simp add: do_Q_def exec_keyword_def method_name_def replace_def methods_def
      with_index_def args0_def)

theorem C9_Q_on_empty_stack_witness:
  "gstack example_interp = [] \<and> do_Q example_interp = Inr example_interp
   \<and> exec_keyword (example_externals False) (render_depth 0 (example_externals False))
       ''Q'' None example_interp = Inr example_interp"
  using C9_Q_on_empty_stack
    [of example_interp "example_externals False"
        "render_depth 0 (example_externals False)" None]
  by (simp add: example_interp_def)

end
